theory Spec2Isabelle
  imports Complex_Main
begin

section \<open>Dates: the JavaScript \<open>Date\<close> operations used by \<open>DatesService\<close>\<close>

text \<open>
  A \<open>Date\<close> is its time value, the number of milliseconds since the epoch, as
  \<open>getTime()\<close> returns it. The local time zone is a fixed offset \<open>tz\<close> of the
  environment (local time = UTC + \<open>tz\<close>, in milliseconds; Brasilia is \<open>- 3 h\<close>), so a
  local day always has 86400000 ms: daylight saving changes and the limits of the time
  value (\<open>\<plusminus> 8.64e15\<close>) are not modelled. The text \<open>yyyy-mm-dd\<close> that
  \<open>toISOString().split('T')[0]\<close> yields is represented by the number of the UTC day
  it names (days since 1970-01-01), which determines it.

  The environment of one call of the service also fixes what the call cannot choose:
  \<^item> \<open>now\<close>: the value of every \<open>new Date()\<close> during the call (a call is taken to
    be instantaneous);
  \<^item> \<open>gen\<close>: the stream of texts \<open>Date.now().toString(36) + '_' + Math.random()...\<close>,
    read at the position \<open>rng\<close> of the state;
  \<^item> \<open>parse\<close>: the built-in parser of \<open>new Date(string)\<close>, \<open>None\<close> for
    \<open>Invalid Date\<close>;
  \<^item> \<open>set_ok\<close>: whether \<open>localStorage.setItem\<close> succeeds for a key;
    \<open>StorageService.set\<close> catches the exception and stores nothing when it does not.
\<close>

type_synonym instant = int
type_synonym dateKey = int
type_synonym weekId = string

datatype storage_key =
    FINANCE_STORAGE_KEY
  | CLOSED_WEEKS_KEY
  | AUTO_CLOSE_CONFIG_KEY
  | WEEKLY_LIMIT_KEY
  | NEXT_CLOSE_DATE_KEY
  | CURRENT_WEEK_START_KEY
  | WEEK_ID_MAPPING_KEY
  | CURRENT_WEEK_ID_KEY

record env =
  now :: instant
  tz :: int
  gen :: "nat \<Rightarrow> string"
  parse :: "string \<Rightarrow> instant option"
  set_ok :: "storage_key \<Rightarrow> bool"

definition msPerDay :: int where
  "msPerDay = 86400000"

definition msPerHour :: int where
  "msPerHour = 3600000"

text \<open>The number of the local day an instant lies in, and the weekday of a day number
  (1970-01-01 was a Thursday, weekday 4; 0 is Sunday).\<close>

definition localDay :: "env \<Rightarrow> instant \<Rightarrow> int" where
  "localDay e t = (t + tz e) div msPerDay"

definition weekdayOfDay :: "int \<Rightarrow> int" where
  "weekdayOfDay n = (n + 4) mod 7"

definition getDay :: "env \<Rightarrow> instant \<Rightarrow> int" where
  "getDay e t = weekdayOfDay (localDay e t)"

definition getHours :: "env \<Rightarrow> instant \<Rightarrow> int" where
  "getHours e t = ((t + tz e) mod msPerDay) div msPerHour"

text \<open>\<open>d.setHours(h, m, s, ms)\<close>: the same local day, at the given time of day.\<close>

definition setHours :: "env \<Rightarrow> instant \<Rightarrow> int \<Rightarrow> int \<Rightarrow> int \<Rightarrow> int \<Rightarrow> instant" where
  "setHours e t h m s ms =
     localDay e t * msPerDay + (h * msPerHour + m * 60000 + s * 1000 + ms) - tz e"

text \<open>\<open>d.setDate(d.getDate() + n)\<close>: \<open>n\<close> days later (earlier when negative), at the
  same time of day.\<close>

definition addDays :: "instant \<Rightarrow> int \<Rightarrow> instant" where
  "addDays t n = t + n * msPerDay"

text \<open>\<open>d.toISOString().split('T')[0]\<close>: the UTC date of an instant.\<close>

definition isoDate :: "instant \<Rightarrow> dateKey" where
  "isoDate t = t div msPerDay"

text \<open>\<open>new Date(dateString + 'T00:00:00')\<close> for a well-formed date: local midnight.\<close>

definition localMidnight :: "env \<Rightarrow> dateKey \<Rightarrow> instant" where
  "localMidnight e k = k * msPerDay - tz e"

definition getWeekStart :: "env \<Rightarrow> instant \<Rightarrow> instant" where
  "getWeekStart e date =
     (let day = getDay e date;
          d = addDays date (- day)
      in setHours e d 0 0 0 0)"

definition getWeekEnd :: "env \<Rightarrow> instant \<Rightarrow> instant" where
  "getWeekEnd e date =
     (let weekStart = getWeekStart e date;
          weekEnd = addDays weekStart 6
      in setHours e weekEnd 23 59 59 999)"

text \<open>\<open>parseDate\<close> appends the time and leaves the rest to the built-in parser.\<close>

definition parseDate :: "env \<Rightarrow> string \<Rightarrow> instant option" where
  "parseDate e dateString = parse e (dateString @ ''T00:00:00'')"

definition isDateInCurrentWeekPeriod :: "env \<Rightarrow> instant \<Rightarrow> instant \<Rightarrow> instant \<Rightarrow> bool" where
  "isDateInCurrentWeekPeriod e date weekStart weekEnd =
     (let dateToCheck = setHours e date 0 0 0 0;
          start = setHours e weekStart 0 0 0 0;
          end' = setHours e weekEnd 23 59 59 999
      in start \<le> dateToCheck \<and> dateToCheck \<le> end')"

definition isDayOfWeek :: "env \<Rightarrow> instant \<Rightarrow> int \<Rightarrow> bool" where
  "isDayOfWeek e date dayOfWeek = (getDay e date = dayOfWeek)"

definition getNextDayOfWeekAfter :: "env \<Rightarrow> instant \<Rightarrow> int \<Rightarrow> instant" where
  "getNextDayOfWeekAfter e date dayOfWeek =
     (let currentDay = getDay e date;
          diff = dayOfWeek - currentDay;
          diff = (if diff \<le> 0 then diff + 7 else diff)
      in setHours e (addDays date diff) 12 0 0 0)"

section \<open>The persisted state of \<open>FinanceService\<close>\<close>

text \<open>
  One field for each key of the storage, with the type of what the service writes
  under it: instants for the ISO texts of dates, an association list in insertion order
  for the object \<open>weekId -> 'yyyy-mm-dd'\<close> (\<open>Object.entries\<close> lists the keys of an
  object in insertion order when, as here, none of them is an array index). \<open>None\<close> is
  a key that is absent. \<open>rng\<close> is not persisted: it counts the texts drawn from
  \<open>gen\<close> so far. Amounts are real numbers: the rounding of floating point is not
  modelled.
\<close>

record transaction =
  tx_id :: string
  tx_description :: string
  tx_amount :: real
  tx_date :: instant
  tx_weekId :: weekId
  tx_createdAt :: instant

record config =
  cfg_enabled :: bool
  cfg_dayOfWeek :: int
  cfg_hour :: int

record state =
  transactions :: "transaction list"
  closed_weeks :: "weekId list"
  auto_close_config :: "config option"
  weekly_limit :: "real option"
  next_close_date :: "instant option"
  current_week_start :: "instant option"
  week_id_mapping :: "(weekId \<times> dateKey) list"
  current_week_id :: "weekId option"
  rng :: nat

text \<open>
  The errors the service throws, by the place that throws them:
  \<^item> \<open>EmptyDescription\<close>: 'Descricao e obrigatoria' (accents left out here);
  \<^item> \<open>NonPositiveAmount\<close>: 'Valor deve ser maior que zero';
  \<^item> \<open>MissingDate\<close>: 'Data e obrigatoria';
  \<^item> \<open>ClosedWeekError\<close>: 'A semana atual esta fechada. Nao e possivel adicionar lancamentos.';
  \<^item> \<open>AlreadyClosedError\<close>: 'A semana atual ja esta fechada.';
  \<^item> \<open>PersistenceInconsistencyError\<close>: 'Erro ao salvar o fechamento da semana. Tente novamente.';
  \<^item> \<open>NextCloseWrongWeekday\<close>: 'A data do proximo fechamento deve ser ...';
  \<^item> \<open>NextCloseNotFuture\<close>: 'A data do proximo fechamento deve ser futura';
  \<^item> \<open>InvalidLimit\<close>: 'Limite deve ser um numero maior que zero';
  \<^item> \<open>InvalidTimeValue\<close>: the \<open>RangeError\<close> of \<open>toISOString()\<close> on an \<open>Invalid Date\<close>.
  An exception does not undo what was stored before it, so every operation returns its
  outcome together with the state it leaves.
\<close>

datatype error =
    EmptyDescription
  | NonPositiveAmount
  | MissingDate
  | ClosedWeekError
  | AlreadyClosedError
  | PersistenceInconsistencyError
  | NextCloseWrongWeekday
  | NextCloseNotFuture
  | InvalidLimit
  | InvalidTimeValue

fun isValidationError :: "error \<Rightarrow> bool" where
  "isValidationError EmptyDescription = True"
| "isValidationError NonPositiveAmount = True"
| "isValidationError MissingDate = True"
| "isValidationError InvalidLimit = True"
| "isValidationError _ = False"

datatype period = NotAvailable | Period instant instant

record history_entry =
  h_weekId :: weekId
  h_period :: period
  h_total :: real
  h_transactionCount :: nat
  h_isClosed :: bool
  h_weekStart :: instant

section \<open>JavaScript helpers\<close>

text \<open>\<open>StorageService.set(key, value)\<close>: the write, or nothing when \<open>setItem\<close> throws.\<close>

definition StorageService_set :: "env \<Rightarrow> storage_key \<Rightarrow> (state \<Rightarrow> state) \<Rightarrow> state \<Rightarrow> state" where
  "StorageService_set e k write s = (if set_ok e k then write s else s)"

text \<open>\<open>obj[k] = v\<close>: an existing key keeps its place, a new one goes last.\<close>

fun obj_set :: "'k \<Rightarrow> 'v \<Rightarrow> ('k \<times> 'v) list \<Rightarrow> ('k \<times> 'v) list" where
  "obj_set k v [] = [(k, v)]"
| "obj_set k v ((k', v') # m) = (if k' = k then (k, v) # m else (k', v') # obj_set k v m)"

text \<open>A text or \<open>null\<close> used as a condition: \<open>null\<close> and the empty text are falsy.\<close>

fun truthy :: "string option \<Rightarrow> bool" where
  "truthy None = False"
| "truthy (Some w) = (w \<noteq> [])"

text \<open>\<open>String.prototype.trim\<close>, on the white space of the 8-bit characters.\<close>

definition isWhiteSpace :: "char \<Rightarrow> bool" where
  "isWhiteSpace c = (of_char c \<in> {9::nat, 10, 11, 12, 13, 32, 160})"

definition trim :: "string \<Rightarrow> string" where
  "trim str = rev (dropWhile isWhiteSpace (rev (dropWhile isWhiteSpace str)))"

text \<open>A filter and a map whose function also changes the state, run left to right as
  \<open>Array.prototype.filter\<close> and \<open>map\<close> call their callbacks.\<close>

fun filter_st :: "('a \<Rightarrow> 's \<Rightarrow> bool \<times> 's) \<Rightarrow> 'a list \<Rightarrow> 's \<Rightarrow> 'a list \<times> 's" where
  "filter_st p [] s = ([], s)"
| "filter_st p (x # xs) s =
     (case p x s of (keep, s1) \<Rightarrow>
        (case filter_st p xs s1 of (ys, s2) \<Rightarrow> (if keep then x # ys else ys, s2)))"

fun map_st :: "('a \<Rightarrow> 's \<Rightarrow> 'b \<times> 's) \<Rightarrow> 'a list \<Rightarrow> 's \<Rightarrow> 'b list \<times> 's" where
  "map_st f [] s = ([], s)"
| "map_st f (x # xs) s =
     (case f x s of (y, s1) \<Rightarrow>
        (case map_st f xs s1 of (ys, s2) \<Rightarrow> (y # ys, s2)))"

text \<open>The elements a \<open>Set\<close> holds after adding those of a list in order: each once, at
  its first occurrence.\<close>

fun set_add_all :: "'a list \<Rightarrow> 'a list \<Rightarrow> 'a list" where
  "set_add_all acc [] = acc"
| "set_add_all acc (x # xs) = set_add_all (if x \<in> set acc then acc else acc @ [x]) xs"

section \<open>\<open>FinanceService\<close>\<close>

definition genId :: "env \<Rightarrow> nat \<Rightarrow> weekId" where
  "genId e n = ''week_'' @ gen e n"

definition generateWeekId :: "env \<Rightarrow> state \<Rightarrow> weekId \<times> state" where
  "generateWeekId e s = (genId e (rng s), s\<lparr>rng := Suc (rng s)\<rparr>)"

definition getWeekIdMapping :: "state \<Rightarrow> (weekId \<times> dateKey) list" where
  "getWeekIdMapping s = week_id_mapping s"

definition setWeekIdMapping :: "env \<Rightarrow> (weekId \<times> dateKey) list \<Rightarrow> state \<Rightarrow> state" where
  "setWeekIdMapping e mapping s =
     StorageService_set e WEEK_ID_MAPPING_KEY (\<lambda>s. s\<lparr>week_id_mapping := mapping\<rparr>) s"

text \<open>The loop of \<open>getOrCreateWeekId\<close> over \<open>Object.entries(mapping)\<close>.\<close>

fun findWeekIdByDate :: "dateKey \<Rightarrow> (weekId \<times> dateKey) list \<Rightarrow> weekId option" where
  "findWeekIdByDate dateKey [] = None"
| "findWeekIdByDate dateKey ((weekId, date) # rest) =
     (if date = dateKey then Some weekId else findWeekIdByDate dateKey rest)"

definition getOrCreateWeekId :: "env \<Rightarrow> instant \<Rightarrow> state \<Rightarrow> weekId \<times> state" where
  "getOrCreateWeekId e weekStartDate s =
     (let dateKey = isoDate weekStartDate;
          mapping = getWeekIdMapping s
      in case findWeekIdByDate dateKey mapping of
           Some weekId \<Rightarrow> (weekId, s)
         | None \<Rightarrow>
             (case generateWeekId e s of (newWeekId, s1) \<Rightarrow>
                (newWeekId, setWeekIdMapping e (obj_set newWeekId dateKey mapping) s1)))"

definition getWeekStartDateById :: "env \<Rightarrow> weekId \<Rightarrow> state \<Rightarrow> instant option" where
  "getWeekStartDateById e weekId s =
     (case map_of (getWeekIdMapping s) weekId of
        None \<Rightarrow> None
      | Some dateString \<Rightarrow> Some (localMidnight e dateString))"

definition getAllTransactions :: "state \<Rightarrow> transaction list" where
  "getAllTransactions s = transactions s"

definition getNextCloseDate :: "state \<Rightarrow> instant option" where
  "getNextCloseDate s = next_close_date s"

definition getClosedWeeks :: "state \<Rightarrow> weekId list" where
  "getClosedWeeks s = closed_weeks s"

definition isWeekClosed :: "state \<Rightarrow> weekId \<Rightarrow> bool" where
  "isWeekClosed s weekId = (weekId \<in> set (getClosedWeeks s))"

definition getAutoCloseConfig :: "state \<Rightarrow> config" where
  "getAutoCloseConfig s =
     (case auto_close_config s of
        None \<Rightarrow> \<lparr>cfg_enabled = True, cfg_dayOfWeek = 0, cfg_hour = 12\<rparr>
      | Some c \<Rightarrow> c)"

definition setAutoCloseConfig :: "env \<Rightarrow> config \<Rightarrow> state \<Rightarrow> state" where
  "setAutoCloseConfig e c s =
     StorageService_set e AUTO_CLOSE_CONFIG_KEY (\<lambda>s. s\<lparr>auto_close_config := Some c\<rparr>) s"

text \<open>\<open>config.dayOfWeek || 0\<close> is \<open>config.dayOfWeek\<close> for every number.\<close>

definition setNextCloseDate :: "env \<Rightarrow> instant \<Rightarrow> state \<Rightarrow> (error + unit) \<times> state" where
  "setNextCloseDate e date s =
     (let config = getAutoCloseConfig s;
          dayOfWeek = cfg_dayOfWeek config
      in if \<not> isDayOfWeek e date dayOfWeek then (Inl NextCloseWrongWeekday, s)
         else
           (let today = setHours e (now e) 0 0 0 0;
                dateToSet = setHours e date 0 0 0 0
            in if dateToSet \<le> today then (Inl NextCloseNotFuture, s)
               else (Inr (),
                     StorageService_set e NEXT_CLOSE_DATE_KEY
                       (\<lambda>s. s\<lparr>next_close_date := Some date\<rparr>) s)))"

definition setCurrentWeekStart :: "env \<Rightarrow> instant \<Rightarrow> weekId option \<Rightarrow> state \<Rightarrow> state" where
  "setCurrentWeekStart e date weekId s =
     (let dateToSet = setHours e date 0 0 0 0;
          s1 = StorageService_set e CURRENT_WEEK_START_KEY
                 (\<lambda>s. s\<lparr>current_week_start := Some dateToSet\<rparr>) s
      in case (case weekId of
                 Some w \<Rightarrow> if truthy weekId then (w, s1) else getOrCreateWeekId e dateToSet s1
               | None \<Rightarrow> getOrCreateWeekId e dateToSet s1) of
           (finalWeekId, s2) \<Rightarrow>
             StorageService_set e CURRENT_WEEK_ID_KEY
               (\<lambda>s. s\<lparr>current_week_id := Some finalWeekId\<rparr>) s2)"

definition getCurrentWeekStart :: "state \<Rightarrow> instant option" where
  "getCurrentWeekStart s = current_week_start s"

definition getCurrentWeekStartDate :: "env \<Rightarrow> state \<Rightarrow> instant" where
  "getCurrentWeekStartDate e s =
     (case getCurrentWeekStart s of
        Some storedStart \<Rightarrow> storedStart
      | None \<Rightarrow>
          (case getNextCloseDate s of
             None \<Rightarrow> getWeekStart e (now e)
           | Some nextCloseDate \<Rightarrow>
               (let weekStart = setHours e (addDays nextCloseDate (- 7)) 0 0 0 0;
                    today = setHours e (now e) 0 0 0 0
                in if today < weekStart then weekStart else today)))"

definition getCurrentWeekId :: "env \<Rightarrow> state \<Rightarrow> weekId \<times> state" where
  "getCurrentWeekId e s =
     (let derive =
            (case getOrCreateWeekId e (getCurrentWeekStartDate e s) s of
               (weekId, s1) \<Rightarrow>
                 (weekId,
                  StorageService_set e CURRENT_WEEK_ID_KEY
                    (\<lambda>s. s\<lparr>current_week_id := Some weekId\<rparr>) s1))
      in case current_week_id s of
           None \<Rightarrow> derive
         | Some storedWeekId \<Rightarrow>
             if truthy (Some storedWeekId) then
               (case getWeekStartDateById e storedWeekId s of
                  None \<Rightarrow> derive
                | Some weekStart \<Rightarrow>
                    if weekStart = getCurrentWeekStartDate e s then (storedWeekId, s)
                    else derive)
             else derive)"

definition getCurrentWeekEndDate :: "env \<Rightarrow> state \<Rightarrow> instant" where
  "getCurrentWeekEndDate e s =
     (case getNextCloseDate s of
        None \<Rightarrow> getWeekEnd e (now e)
      | Some nextCloseDate \<Rightarrow>
          (let weekStart = getCurrentWeekStartDate e s;
               nextClose = setHours e nextCloseDate 23 59 59 999
           in if nextClose < weekStart then getWeekEnd e weekStart else nextClose))"

definition isTransactionInClosedWeek :: "env \<Rightarrow> transaction \<Rightarrow> state \<Rightarrow> bool \<times> state" where
  "isTransactionInClosedWeek e t s =
     (if isWeekClosed s (tx_weekId t) then (True, s)
      else
        (let transactionDate = tx_date t;
             standardWeekStart = getWeekStart e transactionDate
         in case getOrCreateWeekId e standardWeekStart s of
              (standardWeekId, s1) \<Rightarrow>
                if isWeekClosed s1 standardWeekId then (True, s1) else (False, s1)))"

text \<open>The callback of the filter in \<open>getTransactionsByWeek\<close> for the current week.\<close>

definition currentWeekFilter ::
    "env \<Rightarrow> weekId \<Rightarrow> instant \<Rightarrow> instant \<Rightarrow> transaction \<Rightarrow> state \<Rightarrow> bool \<times> state" where
  "currentWeekFilter e weekId currentWeekStart currentWeekEnd t s =
     (if tx_weekId t = weekId then
        (if isWeekClosed s (tx_weekId t) then (False, s) else (True, s))
      else
        (case isTransactionInClosedWeek e t s of
           (inClosed, s1) \<Rightarrow>
             if inClosed then (False, s1)
             else if isDateInCurrentWeekPeriod e (tx_date t) currentWeekStart currentWeekEnd then
               (case isTransactionInClosedWeek e t s1 of
                  (inClosed2, s2) \<Rightarrow> if inClosed2 then (False, s2) else (True, s2))
             else (False, s1)))"

definition getTransactionsByWeek :: "env \<Rightarrow> weekId \<Rightarrow> state \<Rightarrow> transaction list \<times> state" where
  "getTransactionsByWeek e weekId s =
     (let txs = getAllTransactions s
      in case getCurrentWeekId e s of
           (cur, s1) \<Rightarrow>
             if weekId = cur then
               (let currentWeekStart = getCurrentWeekStartDate e s1;
                    currentWeekEnd = getCurrentWeekEndDate e s1
                in filter_st (currentWeekFilter e weekId currentWeekStart currentWeekEnd) txs s1)
             else (filter (\<lambda>t. tx_weekId t = weekId) txs, s1))"

definition getCurrentWeekTransactions :: "env \<Rightarrow> state \<Rightarrow> transaction list \<times> state" where
  "getCurrentWeekTransactions e s =
     (case getCurrentWeekId e s of
        (currentWeekId, s1) \<Rightarrow>
          if isWeekClosed s1 currentWeekId then ([], s1)
          else
            (case getTransactionsByWeek e currentWeekId s1 of
               (txs, s2) \<Rightarrow>
                 filter_st
                   (\<lambda>t s. if tx_weekId t = currentWeekId then (True, s)
                          else (case isTransactionInClosedWeek e t s of
                                  (inClosed, s') \<Rightarrow> (\<not> inClosed, s')))
                   txs s2))"

definition calculateTotal :: "transaction list \<Rightarrow> real" where
  "calculateTotal txs = foldl (\<lambda>sum t. sum + tx_amount t) 0 txs"

definition getCurrentWeekTotal :: "env \<Rightarrow> state \<Rightarrow> real \<times> state" where
  "getCurrentWeekTotal e s =
     (case getCurrentWeekTransactions e s of (txs, s1) \<Rightarrow> (calculateTotal txs, s1))"

definition removeTransaction :: "env \<Rightarrow> string \<Rightarrow> state \<Rightarrow> bool \<times> state" where
  "removeTransaction e transactionId s =
     (let txs = getAllTransactions s;
          filtered = filter (\<lambda>t. tx_id t \<noteq> transactionId) txs
      in (length filtered < length txs,
          StorageService_set e FINANCE_STORAGE_KEY (\<lambda>s. s\<lparr>transactions := filtered\<rparr>) s))"

definition isCurrentWeekClosed :: "env \<Rightarrow> state \<Rightarrow> bool \<times> state" where
  "isCurrentWeekClosed e s =
     (case getCurrentWeekId e s of (currentWeekId, s1) \<Rightarrow> (isWeekClosed s1 currentWeekId, s1))"

definition isDateInClosedWeek :: "env \<Rightarrow> instant \<Rightarrow> state \<Rightarrow> bool \<times> state" where
  "isDateInClosedWeek e date s =
     (case getOrCreateWeekId e (getWeekStart e date) s of
        (weekId, s1) \<Rightarrow> (isWeekClosed s1 weekId, s1))"

text \<open>
  \<open>closeWeek(weekId, nextCloseDate, isManual)\<close>. The function is split where the
  source reads the closed weeks again: \<open>closeWeek\<close> chooses the week to close and makes
  the first check, \<open>closeWeek_commit\<close> is the rest of the body, and
  \<open>closeWeek_manual\<close> is its branch for a manual close, in which
  \<open>closeWeek_schedule\<close> is the statement that sets the next close date and the
  start of the new week (\<open>if (currentNextCloseDate) ... else ...\<close>) and
  \<open>closeWeek_final_check\<close> the final check that the new week is not closed.
  \<open>String(targetWeekId)\<close> is the identity on a text.
\<close>

definition closeWeek_schedule ::
    "env \<Rightarrow> instant \<Rightarrow> instant \<Rightarrow> instant \<Rightarrow> weekId \<Rightarrow> instant option \<Rightarrow> state
      \<Rightarrow> (error + unit) \<times> state" where
  "closeWeek_schedule e closeDate newNextDay newWeekStartDate newWeekId currentNextCloseDate s =
     (case currentNextCloseDate of
        None \<Rightarrow>
          (case setNextCloseDate e newNextDay s of
             (Inl err, s1) \<Rightarrow> (Inl err, s1)
           | (Inr u, s1) \<Rightarrow>
               (Inr u, setCurrentWeekStart e newWeekStartDate (Some newWeekId) s1))
      | Some c \<Rightarrow>
          (let nextClose = setHours e c 0 0 0 0
           in if closeDate < nextClose then
                (Inr (), setCurrentWeekStart e newWeekStartDate (Some newWeekId) s)
              else
                (case setNextCloseDate e newNextDay s of
                   (Inl err, s1) \<Rightarrow> (Inl err, s1)
                 | (Inr u, s1) \<Rightarrow>
                     (Inr u, setCurrentWeekStart e newWeekStartDate (Some newWeekId) s1))))"

definition closeWeek_final_check :: "env \<Rightarrow> instant \<Rightarrow> state \<Rightarrow> (error + bool) \<times> state" where
  "closeWeek_final_check e newWeekStartDate s =
     (case getCurrentWeekId e s of
        (finalWeekId, s1) \<Rightarrow>
          if isWeekClosed s1 finalWeekId then
            (let adjustedDate = addDays newWeekStartDate 1
             in case generateWeekId e s1 of
                  (adjustedWeekId, s2) \<Rightarrow>
                    (Inr True, setCurrentWeekStart e adjustedDate (Some adjustedWeekId) s2))
          else (Inr True, s1))"

definition closeWeek_manual :: "env \<Rightarrow> instant \<Rightarrow> int \<Rightarrow> state \<Rightarrow> (error + bool) \<times> state" where
  "closeWeek_manual e closeDate dayOfWeek s =
     (let currentNextCloseDate = getNextCloseDate s;
          newNextDay = getNextDayOfWeekAfter e (now e) dayOfWeek;
          newWeekStartDate = setHours e closeDate 0 0 0 0
      in case generateWeekId e s of
           (newWeekId, s1) \<Rightarrow>
             (let mapping = getWeekIdMapping s1;
                  s2 = setWeekIdMapping e
                         (obj_set newWeekId (isoDate newWeekStartDate) mapping) s1
              in case closeWeek_schedule e closeDate newNextDay newWeekStartDate newWeekId
                        currentNextCloseDate s2 of
                   (Inl err, s3) \<Rightarrow> (Inl err, s3)
                 | (Inr u, s3) \<Rightarrow> closeWeek_final_check e newWeekStartDate s3))"

definition closeWeek_commit ::
    "env \<Rightarrow> weekId \<Rightarrow> instant option \<Rightarrow> bool \<Rightarrow> state \<Rightarrow> (error + bool) \<times> state" where
  "closeWeek_commit e targetWeekId nextCloseDate isManual s =
     (let closedWeeks = getClosedWeeks s;
          weekIdToClose = targetWeekId
      in if weekIdToClose \<in> set closedWeeks then
           (if isManual then (Inl AlreadyClosedError, s) else (Inr False, s))
         else
           (let s1 = StorageService_set e CLOSED_WEEKS_KEY
                       (\<lambda>s. s\<lparr>closed_weeks := closedWeeks @ [weekIdToClose]\<rparr>) s;
                savedWeeks = getClosedWeeks s1
            in if weekIdToClose \<in> set savedWeeks then
                 (let closeDate = setHours e (now e) 0 0 0 0;
                      config = getAutoCloseConfig s1;
                      dayOfWeek = cfg_dayOfWeek config
                  in if isManual then closeWeek_manual e closeDate dayOfWeek s1
                     else
                       (let nextDay = (case nextCloseDate of
                                         Some d \<Rightarrow> d
                                       | None \<Rightarrow> getNextDayOfWeekAfter e (now e) dayOfWeek)
                        in case setNextCloseDate e nextDay s1 of
                             (Inl err, s2) \<Rightarrow> (Inl err, s2)
                           | (Inr u, s2) \<Rightarrow> (Inr True, s2)))
               else (Inl PersistenceInconsistencyError, s1)))"

definition closeWeek ::
    "env \<Rightarrow> weekId option \<Rightarrow> instant option \<Rightarrow> bool \<Rightarrow> state \<Rightarrow> (error + bool) \<times> state" where
  "closeWeek e weekId nextCloseDate isManual s =
     (if isManual \<and> \<not> truthy weekId then
        (case getCurrentWeekId e s of
           (targetWeekId, s1) \<Rightarrow>
             if isWeekClosed s1 targetWeekId then (Inl AlreadyClosedError, s1)
             else closeWeek_commit e targetWeekId nextCloseDate isManual s1)
      else
        (case (case weekId of
                 Some w \<Rightarrow> if truthy weekId then (w, s) else getCurrentWeekId e s
               | None \<Rightarrow> getCurrentWeekId e s) of
           (targetWeekId, s1) \<Rightarrow>
             if isWeekClosed s1 targetWeekId then (Inr False, s1)
             else closeWeek_commit e targetWeekId nextCloseDate isManual s1))"

definition checkAndAutoCloseWeek :: "env \<Rightarrow> state \<Rightarrow> (error + bool) \<times> state" where
  "checkAndAutoCloseWeek e s =
     (let config = getAutoCloseConfig s
      in if \<not> cfg_enabled config then (Inr False, s)
         else
           (let currentDay = getDay e (now e);
                currentHour = getHours e (now e)
            in if currentDay = cfg_dayOfWeek config \<and> cfg_hour config \<le> currentHour then
                 (case getCurrentWeekId e s of
                    (currentWeekId, s1) \<Rightarrow>
                      if \<not> isWeekClosed s1 currentWeekId then
                        (let closeDate = setHours e (now e) 0 0 0 0;
                             nextDay = getNextDayOfWeekAfter e (now e) (cfg_dayOfWeek config)
                         in case generateWeekId e s1 of
                              (newWeekId, s2) \<Rightarrow>
                                (case closeWeek e (Some currentWeekId) (Some nextDay) False s2 of
                                   (Inl err, s3) \<Rightarrow> (Inl err, s3)
                                 | (Inr wasClosed, s3) \<Rightarrow>
                                     if wasClosed then
                                       (Inr wasClosed,
                                        setCurrentWeekStart e closeDate (Some newWeekId) s3)
                                     else (Inr wasClosed, s3)))
                      else (Inr False, s1))
               else (Inr False, s)))"

text \<open>
  \<open>createTransaction(description, amount, dateString)\<close>. \<open>!amount || amount <= 0\<close>
  is \<open>amount \<le> 0\<close> on the reals. The date is parsed before the current week is read,
  and nothing looks at whether it is valid: an \<open>Invalid Date\<close> goes through
  \<open>getWeekStart\<close> unchanged and \<open>getOrCreateWeekId\<close> then throws at its first
  statement, \<open>weekStartDate.toISOString()\<close>. The identifier of the transaction,
  \<open>Date.now().toString() + Math.random()...\<close>, is the next text of \<open>gen\<close>.
\<close>

definition createTransaction ::
    "env \<Rightarrow> string \<Rightarrow> real \<Rightarrow> string \<Rightarrow> state \<Rightarrow> (error + transaction) \<times> state" where
  "createTransaction e description amount dateString s =
     (if description = [] \<or> trim description = [] then (Inl EmptyDescription, s)
      else if amount \<le> 0 then (Inl NonPositiveAmount, s)
      else if dateString = [] then (Inl MissingDate, s)
      else
        (let parsed = parseDate e dateString;
             currentWeekStart = getCurrentWeekStartDate e s;
             currentWeekEnd = getCurrentWeekEndDate e s
         in case getCurrentWeekId e s of
              (currentWeekId, s1) \<Rightarrow>
                if isWeekClosed s1 currentWeekId then (Inl ClosedWeekError, s1)
                else
                  (case parsed of
                     None \<Rightarrow> (Inl InvalidTimeValue, s1)
                   | Some date \<Rightarrow>
                       (let standardWeekStart = getWeekStart e date
                        in case getOrCreateWeekId e standardWeekStart s1 of
                             (standardWeekId, s2) \<Rightarrow>
                               (let isInCurrentWeekPeriod =
                                      isDateInCurrentWeekPeriod e date currentWeekStart currentWeekEnd;
                                    isStandardWeekClosed = isWeekClosed s2 standardWeekId;
                                    today = setHours e (now e) 0 0 0 0;
                                    dateToCheck = setHours e date 0 0 0 0;
                                    isTodayOrFuture = (today \<le> dateToCheck);
                                    weekId =
                                      (if isTodayOrFuture \<and> \<not> isWeekClosed s2 currentWeekId
                                         then currentWeekId
                                       else if isInCurrentWeekPeriod then currentWeekId
                                       else if isStandardWeekClosed then currentWeekId
                                       else standardWeekId);
                                    t = \<lparr>tx_id = gen e (rng s2),
                                         tx_description = trim description,
                                         tx_amount = amount,
                                         tx_date = date,
                                         tx_weekId = weekId,
                                         tx_createdAt = now e\<rparr>;
                                    s3 = s2\<lparr>rng := Suc (rng s2)\<rparr>;
                                    txs = getAllTransactions s3
                                in (Inr t,
                                    StorageService_set e FINANCE_STORAGE_KEY
                                      (\<lambda>s. s\<lparr>transactions := txs @ [t]\<rparr>) s3))))))"

text \<open>\<open>getWeeksHistory(limit)\<close>; \<open>historyEntry\<close> is the callback of its \<open>map\<close>. The
  text of the period is kept as the two dates it is formatted from.\<close>

definition historyEntry :: "env \<Rightarrow> weekId \<Rightarrow> state \<Rightarrow> history_entry \<times> state" where
  "historyEntry e weekId s =
     (case getTransactionsByWeek e weekId s of
        (txs, s1) \<Rightarrow>
          (let total = calculateTotal txs;
               isClosed = isWeekClosed s1 weekId;
               weekStart = getWeekStartDateById e weekId s1;
               period =
                 (case weekStart of
                    Some ws \<Rightarrow> Period ws (getWeekEnd e ws)
                  | None \<Rightarrow>
                      (case txs of
                         [] \<Rightarrow> NotAvailable
                       | t # rest \<Rightarrow>
                           (let weekStartFallback = getWeekStart e (tx_date t);
                                weekEndFallback = getWeekEnd e weekStartFallback
                            in Period weekStartFallback weekEndFallback)))
           in (\<lparr>h_weekId = weekId,
                h_period = period,
                h_total = total,
                h_transactionCount = length txs,
                h_isClosed = isClosed,
                h_weekStart = (case weekStart of Some ws \<Rightarrow> ws | None \<Rightarrow> 0)\<rparr>,
               s1)))"

definition getWeeksHistory :: "env \<Rightarrow> nat \<Rightarrow> state \<Rightarrow> history_entry list \<times> state" where
  "getWeeksHistory e limit s =
     (let closedWeeks = getClosedWeeks s;
          allTransactions = getAllTransactions s;
          allWeekIds = set_add_all (set_add_all [] closedWeeks) (map tx_weekId allTransactions)
      in case map_st (historyEntry e) allWeekIds s of
           (weeks, s1) \<Rightarrow>
             (take limit
                (sort_key (\<lambda>w. - h_weekStart w)
                   (filter (\<lambda>w. 0 < h_weekStart w) weeks)),
              s1))"

text \<open>The weekly limit.\<close>

definition getWeeklyLimit :: "state \<Rightarrow> real option" where
  "getWeeklyLimit s = weekly_limit s"

definition setWeeklyLimit :: "env \<Rightarrow> real option \<Rightarrow> state \<Rightarrow> (error + unit) \<times> state" where
  "setWeeklyLimit e limit s =
     (case limit of
        Some l \<Rightarrow>
          if l \<le> 0 then (Inl InvalidLimit, s)
          else (Inr (), StorageService_set e WEEKLY_LIMIT_KEY (\<lambda>s. s\<lparr>weekly_limit := limit\<rparr>) s)
      | None \<Rightarrow> (Inr (), StorageService_set e WEEKLY_LIMIT_KEY (\<lambda>s. s\<lparr>weekly_limit := limit\<rparr>) s))"

definition isWeeklyLimitExceeded :: "env \<Rightarrow> state \<Rightarrow> bool \<times> state" where
  "isWeeklyLimitExceeded e s =
     (case getWeeklyLimit s of
        None \<Rightarrow> (False, s)
      | Some limit \<Rightarrow>
          (case getCurrentWeekTotal e s of (currentTotal, s1) \<Rightarrow> (limit < currentTotal, s1)))"

definition getWeeklyLimitUsage :: "env \<Rightarrow> state \<Rightarrow> real option \<times> state" where
  "getWeeklyLimitUsage e s =
     (case getWeeklyLimit s of
        None \<Rightarrow> (None, s)
      | Some limit \<Rightarrow>
          (case getCurrentWeekTotal e s of
             (currentTotal, s1) \<Rightarrow> (Some (min (currentTotal / limit * 100) 100), s1)))"

section \<open>Predicates of the statements\<close>

text \<open>
  The calendar of the statements, in numbers of local days. \<open>sundayOnOrBefore n\<close> is
  the first day of the Sunday-to-Saturday week that holds day \<open>n\<close>: the standard
  calendar week of \<open>n\<close>.

  The period of the current week is a range of days, both ends included. It starts on
  the day of the stored start of the current week; when none is stored, on the Sunday of
  today's week, or, when a next close date is stored, seven days before that date but not
  before today. It ends on the day of the stored next close date; when none is stored, on
  the Saturday of today's week; and when the stored one lies before the start, on the
  Saturday of the week that holds the start.
\<close>

definition sundayOnOrBefore :: "int \<Rightarrow> int" where
  "sundayOnOrBefore n = n - weekdayOfDay n"

definition currentWeekStartDay :: "env \<Rightarrow> state \<Rightarrow> int" where
  "currentWeekStartDay e s =
     (case current_week_start s of
        Some d \<Rightarrow> localDay e d
      | None \<Rightarrow>
          (case next_close_date s of
             None \<Rightarrow> sundayOnOrBefore (localDay e (now e))
           | Some n \<Rightarrow> max (localDay e n - 7) (localDay e (now e))))"

definition currentWeekEndDay :: "env \<Rightarrow> state \<Rightarrow> int" where
  "currentWeekEndDay e s =
     (case next_close_date s of
        None \<Rightarrow> sundayOnOrBefore (localDay e (now e)) + 6
      | Some n \<Rightarrow>
          if localDay e n < currentWeekStartDay e s
          then sundayOnOrBefore (currentWeekStartDay e s) + 6
          else localDay e n)"

definition inCurrentPeriod :: "env \<Rightarrow> state \<Rightarrow> instant \<Rightarrow> bool" where
  "inCurrentPeriod e s d =
     (currentWeekStartDay e s \<le> localDay e d \<and> localDay e d \<le> currentWeekEndDay e s)"

text \<open>
  The mapping files a week under the date text of the local midnight of its first day.
  \<open>standardWeekKey e d\<close> is that text for the standard calendar week of the instant
  \<open>d\<close>; at or behind UTC it is the date of the Sunday itself. \<open>weekIdFiledUnder\<close> is
  the \<open>weekId\<close> of the first entry of the mapping with a given date text, and
  \<open>standardWeekId\<close> the week of a date text: the one the mapping holds for it, or the
  next identifier of the generator when it holds none.
\<close>

definition standardWeekKey :: "env \<Rightarrow> instant \<Rightarrow> dateKey" where
  "standardWeekKey e d = isoDate (localMidnight e (sundayOnOrBefore (localDay e d)))"

definition weekIdFiledUnder :: "dateKey \<Rightarrow> (weekId \<times> dateKey) list \<Rightarrow> weekId option" where
  "weekIdFiledUnder k m = map_option fst (find (\<lambda>p. snd p = k) m)"

definition standardWeekId :: "env \<Rightarrow> state \<Rightarrow> dateKey \<Rightarrow> weekId" where
  "standardWeekId e s k =
     (case weekIdFiledUnder k (week_id_mapping s) of
        Some w \<Rightarrow> w
      | None \<Rightarrow> genId e (rng s))"

text \<open>
  What the claims about the current week call belonging to a closed week: the
  transaction's own \<open>weekId\<close> is closed, or the week the mapping holds for the standard
  calendar week of the transaction's date is closed (\<open>closedByDate\<close>; a week the
  mapping does not hold yet is new, and open).
\<close>

definition closedByDate :: "state \<Rightarrow> dateKey \<Rightarrow> bool" where
  "closedByDate s k =
     (case weekIdFiledUnder k (week_id_mapping s) of
        None \<Rightarrow> False
      | Some w \<Rightarrow> w \<in> set (closed_weeks s))"

definition belongsToClosedWeek :: "env \<Rightarrow> state \<Rightarrow> transaction \<Rightarrow> bool" where
  "belongsToClosedWeek e s t =
     (tx_weekId t \<in> set (closed_weeks s) \<or> closedByDate s (standardWeekKey e (tx_date t)))"

text \<open>
  The identifiers still to be generated are new: none is a key of the mapping or a closed
  week, and no two of them are equal. This is what the source expects of
  \<open>generateWeekId\<close> (a timestamp and nine random digits).
\<close>

definition gen_fresh :: "env \<Rightarrow> state \<Rightarrow> bool" where
  "gen_fresh e s =
     ((\<forall>n\<ge>rng s. genId e n \<notin> fst ` set (week_id_mapping s) \<and> genId e n \<notin> set (closed_weeks s))
      \<and> inj_on (gen e) {rng s..})"

text \<open>A state reached from \<open>s\<close> in which the same weeks and the same dates are
  closed.\<close>

definition same_closing :: "env \<Rightarrow> state \<Rightarrow> state \<Rightarrow> bool" where
  "same_closing e s st =
     (closed_weeks st = closed_weeks s \<and> gen_fresh e st
      \<and> (\<forall>k. closedByDate st k = closedByDate s k))"

text \<open>
  The invariant of the two side tables and what an operation may do to them:
  \<open>ledger_inv\<close> says that no week is twice among the closed weeks and no
  \<open>weekId\<close> twice in the mapping; \<open>ledger_kept s s'\<close> that every closed week of
  \<open>s\<close> is still closed in \<open>s'\<close>, once each, and that every \<open>weekId\<close> mapped in
  \<open>s\<close> is mapped to the same date in \<open>s'\<close>. \<open>ids_new\<close> is \<open>gen_fresh\<close>
  without the closed weeks: the identifiers still to be generated are not keys of the
  mapping and differ from each other. \<open>keeps\<close> and \<open>ledger_grows\<close> serve the proofs.
\<close>

definition ledger_inv :: "state \<Rightarrow> bool" where
  "ledger_inv s = (distinct (closed_weeks s) \<and> distinct (map fst (week_id_mapping s)))"

definition ids_new :: "env \<Rightarrow> state \<Rightarrow> bool" where
  "ids_new e s =
     ((\<forall>n\<ge>rng s. genId e n \<notin> fst ` set (week_id_mapping s)) \<and> inj_on (gen e) {rng s..})"

definition ledger_grows :: "state \<Rightarrow> state \<Rightarrow> bool" where
  "ledger_grows s s' =
     (set (closed_weeks s) \<subseteq> set (closed_weeks s')
      \<and> set (week_id_mapping s) \<subseteq> set (week_id_mapping s'))"

definition keeps :: "env \<Rightarrow> state \<Rightarrow> state \<Rightarrow> bool" where
  "keeps e s s' =
     (ledger_inv s \<and> ids_new e s \<longrightarrow> ledger_inv s' \<and> ids_new e s' \<and> ledger_grows s s')"

definition ledger_kept :: "state \<Rightarrow> state \<Rightarrow> bool" where
  "ledger_kept s s' =
     (distinct (closed_weeks s')
      \<and> (\<forall>w. w \<in> set (closed_weeks s) \<longrightarrow> w \<in> set (closed_weeks s'))
      \<and> (\<forall>w d. map_of (week_id_mapping s) w = Some d \<longrightarrow> map_of (week_id_mapping s') w = Some d))"

definition ledger_step :: "env \<Rightarrow> state \<Rightarrow> state \<Rightarrow> bool" where
  "ledger_step e s s' = (ledger_kept s s' \<and> ledger_inv s' \<and> ids_new e s')"

section \<open>Example environments and states\<close>

text \<open>
  Sunday 2 June 2024 is day 19876; at the offset of Brasilia its local midnight is the
  instant 1717297200000. \<open>sunday_noon\<close> is that day at 12:05, with every write
  succeeding and a parser that knows three dates. \<open>week_of_27_may\<close> is the state of a
  ledger whose current week \<open>w0\<close> began on Monday 27 May (day 19870) and is open.
\<close>

definition sunday_noon :: env where
  "sunday_noon =
     \<lparr>now = 1717340700000, tz = - 10800000,
      gen = (\<lambda>n. replicate (Suc n) CHR ''x''),
      parse = (\<lambda>str. if str = ''2024-06-02T00:00:00'' then Some 1717297200000
                      else if str = ''2024-05-21T00:00:00'' then Some 1716260400000
                      else if str = ''2024-05-28T00:00:00'' then Some 1716865200000
                      else None),
      set_ok = (\<lambda>k. True)\<rparr>"

definition week_of_27_may :: state where
  "week_of_27_may =
     \<lparr>transactions = [], closed_weeks = [], auto_close_config = None, weekly_limit = None,
      next_close_date = None, current_week_start = Some 1716778800000,
      week_id_mapping = [(''w0'', 19870)], current_week_id = Some ''w0'', rng = 0\<rparr>"

text \<open>A ledger whose only transaction was stored by the earlier version of the service,
  which used the timestamp of the week's Sunday as \<open>weekId\<close> and kept no mapping.\<close>

definition legacy_ledger :: state where
  "legacy_ledger =
     \<lparr>transactions =
        [\<lparr>tx_id = ''t1'', tx_description = ''cafe'', tx_amount = 5,
          tx_date = 1716865200000, tx_weekId = ''1716692400000'',
          tx_createdAt = 1716900000000\<rparr>],
      closed_weeks = [], auto_close_config = None, weekly_limit = None,
      next_close_date = None, current_week_start = Some 1716778800000,
      week_id_mapping = [(''w0'', 19870)], current_week_id = Some ''w0'', rng = 0\<rparr>"

text \<open>The same ledger after \<open>w0\<close> was closed and before a new week was set up.\<close>

definition closed_current_week :: state where
  "closed_current_week =
     \<lparr>transactions = [], closed_weeks = [''w0''], auto_close_config = None, weekly_limit = None,
      next_close_date = None, current_week_start = Some 1716778800000,
      week_id_mapping = [(''w0'', 19870)], current_week_id = Some ''w0'', rng = 0\<rparr>"

text \<open>\<open>sunday_noon\<close> with a storage that refuses to write the closed weeks.\<close>

definition storage_full :: env where
  "storage_full = sunday_noon\<lparr>set_ok := (\<lambda>k. k \<noteq> CLOSED_WEEKS_KEY)\<rparr>"

text \<open>The ledger of \<open>week_of_27_may\<close> after the schedule was moved from Sunday to
  Wednesday while the next close was already set to Sunday 9 June, 12:00.\<close>

definition wednesday_schedule :: state where
  "wednesday_schedule =
     \<lparr>transactions = [], closed_weeks = [],
      auto_close_config = Some \<lparr>cfg_enabled = True, cfg_dayOfWeek = 3, cfg_hour = 12\<rparr>,
      weekly_limit = None, next_close_date = Some 1717945200000,
      current_week_start = Some 1716778800000,
      week_id_mapping = [(''w0'', 19870)], current_week_id = Some ''w0'', rng = 0\<rparr>"

text \<open>A ledger in which the next identifier of the generator, \<open>week_x\<close>, is already the
  identifier of a closed week.\<close>

definition colliding_ids :: state where
  "colliding_ids =
     \<lparr>transactions = [], closed_weeks = [''week_x''], auto_close_config = None,
      weekly_limit = None, next_close_date = None,
      current_week_start = Some 1716778800000,
      week_id_mapping = [(''week_x'', 19863), (''w0'', 19870)],
      current_week_id = Some ''w0'', rng = 0\<rparr>"

text \<open>The same Sunday at 12:05 one hour east of UTC, and a ledger whose current week was
  set up there on that Sunday: the date text of its local midnight is that of Saturday,
  day 19875.\<close>

definition lisbon_noon :: env where
  "lisbon_noon = sunday_noon\<lparr>now := 1717326300000, tz := 3600000\<rparr>"

definition started_today :: state where
  "started_today =
     \<lparr>transactions = [], closed_weeks = [], auto_close_config = None,
      weekly_limit = None, next_close_date = None,
      current_week_start = Some 1717282800000,
      week_id_mapping = [(''w0'', 19875)], current_week_id = Some ''w0'', rng = 0\<rparr>"


text \<open>
  A ledger with five transactions and two closed weeks, \<open>wOld\<close> and the standard
  week \<open>wS\<close> of Sunday 26 May (day 19869): \<open>t1\<close> is of the current week \<open>w0\<close>
  (and dated in the closed standard week); \<open>t2\<close> was stored by the earlier version and
  is dated Monday 3 June, within the current period; \<open>t3\<close> is of the closed week
  \<open>wOld\<close>; \<open>t4\<close> is dated before the current period; \<open>t5\<close> was stored by the
  earlier version and is dated Wednesday 29 May, within the current period and in the
  closed standard week.
\<close>

definition backfilled :: state where
  "backfilled =
     \<lparr>transactions =
        [\<lparr>tx_id = ''t1'', tx_description = ''cafe'', tx_amount = 5,
          tx_date = 1716865200000, tx_weekId = ''w0'', tx_createdAt = 1716900000000\<rparr>,
         \<lparr>tx_id = ''t2'', tx_description = ''pao'', tx_amount = 3,
          tx_date = 1717383600000, tx_weekId = ''1717297200000'', tx_createdAt = 1717390000000\<rparr>,
         \<lparr>tx_id = ''t3'', tx_description = ''luz'', tx_amount = 80,
          tx_date = 1716865200000, tx_weekId = ''wOld'', tx_createdAt = 1716900000000\<rparr>,
         \<lparr>tx_id = ''t4'', tx_description = ''gas'', tx_amount = 40,
          tx_date = 1716260400000, tx_weekId = ''1716087600000'', tx_createdAt = 1716300000000\<rparr>,
         \<lparr>tx_id = ''t5'', tx_description = ''agua'', tx_amount = 20,
          tx_date = 1716951600000, tx_weekId = ''1716692400000'', tx_createdAt = 1716990000000\<rparr>],
      closed_weeks = [''wOld'', ''wS''], auto_close_config = None, weekly_limit = None,
      next_close_date = None, current_week_start = Some 1716778800000,
      week_id_mapping = [(''wOld'', 19863), (''wS'', 19869), (''w0'', 19870)],
      current_week_id = Some ''w0'', rng = 0\<rparr>"

text \<open>The ledger of \<open>week_of_27_may\<close> with the standard week \<open>wP\<close> of Sunday 19 May
  (day 19862) closed.\<close>

definition closed_standard_week :: state where
  "closed_standard_week =
     \<lparr>transactions = [], closed_weeks = [''wP''], auto_close_config = None,
      weekly_limit = None, next_close_date = None, current_week_start = Some 1716778800000,
      week_id_mapping = [(''wP'', 19862), (''w0'', 19870)], current_week_id = Some ''w0'',
      rng = 0\<rparr>"

text \<open>The ledger of \<open>week_of_27_may\<close> with the next close set for Saturday 1 June,
  12:00 (day 19875), which has passed: the period of the current week ended yesterday.\<close>

definition closing_overdue :: state where
  "closing_overdue =
     \<lparr>transactions = [], closed_weeks = [], auto_close_config = None, weekly_limit = None,
      next_close_date = Some 1717254000000, current_week_start = Some 1716778800000,
      week_id_mapping = [(''w0'', 19870)], current_week_id = Some ''w0'', rng = 0\<rparr>"

section \<open>Facts about dates\<close>

lemma msPerDay_pos: "0 < msPerDay"
  by (simp add: msPerDay_def)

lemma localDay_addDays: "localDay e (addDays t n) = localDay e t + n"
proof -
  have "(t + n * msPerDay + tz e) div msPerDay = (t + tz e + n * msPerDay) div msPerDay"
    by (simp add: add.commute add.left_commute)
  also have "\<dots> = (t + tz e) div msPerDay + n"
    using msPerDay_pos by simp
  finally show ?thesis
    by (simp add: localDay_def addDays_def)
qed

lemma localDay_setHours:
  assumes "0 \<le> h * msPerHour + m * 60000 + s * 1000 + ms"
    and "h * msPerHour + m * 60000 + s * 1000 + ms < msPerDay"
  shows "localDay e (setHours e t h m s ms) = localDay e t"
proof -
  let ?r = "h * msPerHour + m * 60000 + s * 1000 + ms"
  have "(localDay e t * msPerDay + ?r - tz e + tz e) div msPerDay
        = (?r + localDay e t * msPerDay) div msPerDay"
    by (simp add: add.commute)
  also have "\<dots> = ?r div msPerDay + localDay e t"
    using msPerDay_pos by simp
  also have "\<dots> = localDay e t"
    using assms by simp
  finally show ?thesis
    unfolding setHours_def localDay_def [of e "_ - tz e"] by simp
qed

lemma localDay_setHours_noon [simp]:
  "localDay e (setHours e t 12 0 0 0) = localDay e t"
  by (rule localDay_setHours) (simp_all add: msPerHour_def msPerDay_def)

lemma localDay_setHours_midnight [simp]:
  "localDay e (setHours e t 0 0 0 0) = localDay e t"
  by (rule localDay_setHours) (simp_all add: msPerHour_def msPerDay_def)

lemma localDay_setHours_end [simp]:
  "localDay e (setHours e t 23 59 59 999) = localDay e t"
  by (rule localDay_setHours) (simp_all add: msPerHour_def msPerDay_def)

lemma weekdayOfDay_range: "0 \<le> weekdayOfDay n \<and> weekdayOfDay n < 7"
  by (simp add: weekdayOfDay_def)

lemma localDay_getNextDayOfWeekAfter:
  "localDay e (getNextDayOfWeekAfter e d k) =
     localDay e d + (if k - getDay e d \<le> 0 then k - getDay e d + 7 else k - getDay e d)"
  by (simp add: getNextDayOfWeekAfter_def Let_def localDay_addDays)

lemma mod7_decomp: "(a::int) = 7 * (a div 7) + a mod 7"
  by simp

lemma mod7_unique:
  assumes "(a::int) = 7 * q + r" "0 \<le> r" "r < 7"
  shows "a mod 7 = r"
proof -
  have "a mod 7 = (r + q * 7) mod 7" using assms(1) by (simp add: mult.commute add.commute)
  also have "\<dots> = r mod 7" by (rule mod_mult_self1)
  also have "\<dots> = r" using assms by simp
  finally show ?thesis .
qed

lemma shift_week:
  assumes "n + 4 = 7 * q + (c::int)"
  shows "n + (k - c + 7) + 4 = 7 * (q + 1) + k"
proof -
  have "7 * (q + 1) = 7 * q + 7" by simp
  with assms show ?thesis by linarith
qed

lemma next_weekday_hits:
  assumes "0 \<le> (k::int)" "k \<le> 6"
  shows "(n + (if k - (n + 4) mod 7 \<le> 0 then k - (n + 4) mod 7 + 7 else k - (n + 4) mod 7) + 4) mod 7 = k"
proof -
  let ?c = "(n + 4) mod 7"
  let ?q = "(n + 4) div 7"
  have d: "n + 4 = 7 * ?q + ?c" by simp
  have k7: "k < 7" using assms by simp
  show ?thesis
  proof (cases "k - ?c \<le> 0")
    case True
    have "n + (k - ?c + 7) + 4 = 7 * (?q + 1) + k" using d by (rule shift_week)
    from this assms(1) k7 have "(n + (k - ?c + 7) + 4) mod 7 = k" by (rule mod7_unique)
    with True show ?thesis by simp
  next
    case False
    have "n + (k - ?c) + 4 = 7 * ?q + k" using d by linarith
    from this assms(1) k7 have "(n + (k - ?c) + 4) mod 7 = k" by (rule mod7_unique)
    with False show ?thesis by simp
  qed
qed

lemma next_weekday_first:
  assumes "0 \<le> (k::int)" "k \<le> 6" "n < x"
    and "x < n + (if k - (n + 4) mod 7 \<le> 0 then k - (n + 4) mod 7 + 7 else k - (n + 4) mod 7)"
  shows "(x + 4) mod 7 \<noteq> k"
proof
  assume eq: "(x + 4) mod 7 = k"
  let ?c = "(n + 4) mod 7"
  let ?q = "(n + 4) div 7"
  let ?p = "(x + 4) div 7"
  have d: "n + 4 = 7 * ?q + ?c" by simp
  have dx: "x + 4 = 7 * ?p + k" using mod7_decomp [of "x + 4"] eq by simp
  have c: "0 \<le> ?c" "?c < 7" by simp_all
  show False
  proof (cases "k - ?c \<le> 0")
    case True
    with assms(4) have hi: "x < n + (k - ?c + 7)" by simp
    show False
    proof (cases "?p \<le> ?q")
      case True
      with d dx c assms(3) \<open>k - ?c \<le> 0\<close> show False by linarith
    next
      case False
      with d dx c hi show False by linarith
    qed
  next
    case False
    with assms(4) have hi: "x < n + (k - ?c)" by simp
    show False
    proof (cases "?p < ?q")
      case True
      with d dx c assms show False by linarith
    next
      case False
      with d dx c hi show False by linarith
    qed
  qed
qed

lemma getDay_getNextDayOfWeekAfter:
  assumes "0 \<le> k" and "k \<le> 6"
  shows "getDay e (getNextDayOfWeekAfter e d k) = k"
  unfolding getDay_def [of e "getNextDayOfWeekAfter e d k"] localDay_getNextDayOfWeekAfter
  unfolding getDay_def weekdayOfDay_def
  using assms by (rule next_weekday_hits)

lemma getNextDayOfWeekAfter_later:
  assumes "0 \<le> k" and "k \<le> 6"
  shows "localDay e d < localDay e (getNextDayOfWeekAfter e d k)"
proof -
  have "0 \<le> getDay e d" "getDay e d < 7"
    using weekdayOfDay_range [of "localDay e d"] by (simp_all add: getDay_def)
  with assms show ?thesis
    unfolding localDay_getNextDayOfWeekAfter by simp
qed

text \<open>
  Claim C10. For every date \<open>d\<close> and every \<open>dayOfWeek\<close> \<open>k\<close> in 0..6,
  \<open>getNextDayOfWeekAfter(d, k)\<close> lies on a local day strictly after the day of \<open>d\<close>,
  that day has weekday \<open>k\<close>, and no day strictly between the two has weekday \<open>k\<close>: the
  result is the first day after \<open>d\<close> with that weekday, and it is never the day of
  \<open>d\<close> itself, also when \<open>d\<close> already falls on weekday \<open>k\<close>.
\<close>

theorem getNextDayOfWeekAfter_least:
  assumes "0 \<le> k" and "k \<le> 6"
  shows "localDay e d < localDay e (getNextDayOfWeekAfter e d k)
       \<and> getDay e (getNextDayOfWeekAfter e d k) = k
       \<and> (\<forall>n. localDay e d < n \<and> n < localDay e (getNextDayOfWeekAfter e d k)
              \<longrightarrow> weekdayOfDay n \<noteq> k)
       \<and> (getDay e d = k \<longrightarrow>
              localDay e (getNextDayOfWeekAfter e d k) = localDay e d + 7)"
proof -
  let ?c = "getDay e d"
  have c: "0 \<le> ?c" "?c < 7"
    using weekdayOfDay_range [of "localDay e d"] by (simp_all add: getDay_def)
  have 1: "localDay e d < localDay e (getNextDayOfWeekAfter e d k)"
    unfolding localDay_getNextDayOfWeekAfter using assms c by simp
  have 2: "getDay e (getNextDayOfWeekAfter e d k) = k"
    using assms by (rule getDay_getNextDayOfWeekAfter)
  have 3: "weekdayOfDay n \<noteq> k"
    if "localDay e d < n \<and> n < localDay e (getNextDayOfWeekAfter e d k)" for n
  proof -
    from that have lo: "localDay e d < n" and
      hi: "n < localDay e d + (if k - (localDay e d + 4) mod 7 \<le> 0
             then k - (localDay e d + 4) mod 7 + 7 else k - (localDay e d + 4) mod 7)"
      unfolding localDay_getNextDayOfWeekAfter getDay_def weekdayOfDay_def by simp_all
    from assms lo hi show ?thesis
      unfolding weekdayOfDay_def by (rule next_weekday_first)
  qed
  have 4: "localDay e (getNextDayOfWeekAfter e d k) = localDay e d + 7" if "?c = k"
    unfolding localDay_getNextDayOfWeekAfter using that by simp
  from 1 2 3 4 show ?thesis by blast
qed

theorem getNextDayOfWeekAfter_least_witness:
  "localDay sunday_noon (now sunday_noon) = 19876
   \<and> getDay sunday_noon (now sunday_noon) = 0
   \<and> getNextDayOfWeekAfter sunday_noon (now sunday_noon) 0 = 1717945200000
   \<and> localDay sunday_noon (getNextDayOfWeekAfter sunday_noon (now sunday_noon) 0) = 19883
   \<and> getDay sunday_noon (getNextDayOfWeekAfter sunday_noon (now sunday_noon) 0) = 0"
  using getNextDayOfWeekAfter_least [of 0 sunday_noon "now sunday_noon"]
  by (simp add: sunday_noon_def getNextDayOfWeekAfter_def getDay_def weekdayOfDay_def
      localDay_def setHours_def addDays_def msPerDay_def msPerHour_def)

lemma setHours_midnight_eq: "setHours e t 0 0 0 0 = localDay e t * msPerDay - tz e"
  by (simp add: setHours_def)

lemma setHours_midnight_idem [simp]:
  "setHours e (setHours e t 0 0 0 0) 0 0 0 0 = setHours e t 0 0 0 0"
  by (simp add: setHours_midnight_eq [of e "setHours e t 0 0 0 0"]) (simp add: setHours_midnight_eq)

lemma midnight_less_iff:
  "setHours e a 0 0 0 0 < setHours e b 0 0 0 0 \<longleftrightarrow> localDay e a < localDay e b"
  using msPerDay_pos by (simp add: setHours_midnight_eq)

lemma midnight_le_iff:
  "setHours e a 0 0 0 0 \<le> setHours e b 0 0 0 0 \<longleftrightarrow> localDay e a \<le> localDay e b"
  using msPerDay_pos by (simp add: setHours_midnight_eq)

lemma div_day:
  assumes "0 \<le> r" "r < msPerDay"
  shows "(n * msPerDay + r) div msPerDay = n"
proof -
  have "(n * msPerDay + r) div msPerDay = (r + n * msPerDay) div msPerDay"
    by (simp add: add.commute)
  also have "\<dots> = r div msPerDay + n"
    using msPerDay_pos by simp
  also have "\<dots> = n"
    using assms by simp
  finally show ?thesis .
qed

lemma isoDate_midnight:
  assumes "- msPerDay < tz e" "tz e \<le> 0"
  shows "isoDate (setHours e t 0 0 0 0) = localDay e t"
proof -
  have "localDay e t * msPerDay - tz e = localDay e t * msPerDay + (- tz e)"
    by simp
  moreover have "(localDay e t * msPerDay + (- tz e)) div msPerDay = localDay e t"
    using assms by (intro div_day) simp_all
  ultimately show ?thesis
    by (simp only: isoDate_def setHours_midnight_eq)
qed

lemma localMidnight_isoDate_midnight:
  assumes "- msPerDay < tz e" "tz e \<le> 0"
  shows "localMidnight e (isoDate (setHours e t 0 0 0 0)) = setHours e t 0 0 0 0"
  unfolding isoDate_midnight [OF assms] localMidnight_def
  by (simp add: setHours_midnight_eq)

text \<open>The standard calendar week: \<open>getWeekStart\<close> is the local midnight of the Sunday on
  or before the day of its argument, and \<open>getWeekEnd\<close> falls on the Saturday after it.\<close>

lemma sundayOnOrBefore_weekday: "weekdayOfDay (sundayOnOrBefore n) = 0"
proof -
  have "n - (n + 4) mod 7 + 4 = 7 * ((n + 4) div 7)"
    using mod7_decomp [of "n + 4"] by linarith
  then show ?thesis
    by (simp add: sundayOnOrBefore_def weekdayOfDay_def)
qed

lemma sundayOnOrBefore_range: "sundayOnOrBefore n \<le> n \<and> n < sundayOnOrBefore n + 7"
  using weekdayOfDay_range [of n] by (simp add: sundayOnOrBefore_def)

lemma getWeekStart_sunday:
  "getWeekStart e d = localMidnight e (sundayOnOrBefore (localDay e d))"
  by (simp add: getWeekStart_def Let_def setHours_midnight_eq localDay_addDays getDay_def
      localMidnight_def sundayOnOrBefore_def)

lemma localDay_getWeekStart: "localDay e (getWeekStart e d) = sundayOnOrBefore (localDay e d)"
  by (simp add: getWeekStart_def Let_def localDay_addDays getDay_def sundayOnOrBefore_def)

lemma getDay_getWeekStart: "getDay e (getWeekStart e d) = 0"
  by (simp add: getDay_def localDay_getWeekStart sundayOnOrBefore_weekday)

lemma localDay_getWeekEnd: "localDay e (getWeekEnd e d) = sundayOnOrBefore (localDay e d) + 6"
  by (simp add: getWeekEnd_def Let_def localDay_addDays localDay_getWeekStart)

text \<open>The date text under which the mapping files a standard week is that of the Sunday
  itself at or behind UTC, and that of the Saturday before it east of UTC.\<close>

lemma isoDate_getWeekStart: "isoDate (getWeekStart e d) = standardWeekKey e d"
  by (simp add: getWeekStart_sunday standardWeekKey_def)

lemma standardWeekKey_sunday:
  assumes "- msPerDay < tz e" "tz e \<le> 0"
  shows "standardWeekKey e d = sundayOnOrBefore (localDay e d)"
proof -
  have "(sundayOnOrBefore (localDay e d) * msPerDay + (- tz e)) div msPerDay
        = sundayOnOrBefore (localDay e d)"
    using assms by (intro div_day) simp_all
  then show ?thesis
    by (simp add: standardWeekKey_def isoDate_def localMidnight_def)
qed

lemma standardWeekKey_saturday:
  assumes "0 < tz e" "tz e \<le> msPerDay"
  shows "standardWeekKey e d = sundayOnOrBefore (localDay e d) - 1"
proof -
  have "sundayOnOrBefore (localDay e d) * msPerDay - tz e
        = (sundayOnOrBefore (localDay e d) - 1) * msPerDay + (msPerDay - tz e)"
    by (simp add: left_diff_distrib)
  moreover have "((sundayOnOrBefore (localDay e d) - 1) * msPerDay + (msPerDay - tz e))
        div msPerDay = sundayOnOrBefore (localDay e d) - 1"
    using assms by (intro div_day) simp_all
  ultimately show ?thesis
    by (simp only: standardWeekKey_def isoDate_def localMidnight_def)
qed

text \<open>The test of the period compares days: it holds from the day of the start to the
  day of the end, both included.\<close>

lemma day_le_iff:
  assumes "0 \<le> r" "r < msPerDay"
  shows "a * msPerDay \<le> b * msPerDay + r \<longleftrightarrow> a \<le> b"
proof
  assume le: "a * msPerDay \<le> b * msPerDay + r"
  show "a \<le> b"
  proof (rule ccontr)
    assume "\<not> a \<le> b"
    then have "b + 1 \<le> a" by simp
    then have "(b + 1) * msPerDay \<le> a * msPerDay"
      using msPerDay_pos by (simp only: mult_right_mono less_imp_le)
    then have "b * msPerDay + msPerDay \<le> a * msPerDay"
      by (simp add: distrib_right)
    with le assms show False by linarith
  qed
next
  assume "a \<le> b"
  then have "a * msPerDay \<le> b * msPerDay"
    using msPerDay_pos by (simp only: mult_right_mono less_imp_le)
  with assms show "a * msPerDay \<le> b * msPerDay + r" by linarith
qed

lemma setHours_end_eq:
  "setHours e t 23 59 59 999 = localDay e t * msPerDay + 86399999 - tz e"
  by (simp add: setHours_def msPerHour_def)

lemma midnight_le_end_iff:
  "setHours e a 0 0 0 0 \<le> setHours e b 23 59 59 999 \<longleftrightarrow> localDay e a \<le> localDay e b"
  using day_le_iff [of 86399999 "localDay e a" "localDay e b"]
  by (simp add: setHours_midnight_eq setHours_end_eq msPerDay_def)

lemma end_less_iff:
  "setHours e n 23 59 59 999 < t \<longleftrightarrow> localDay e n < localDay e t"
proof -
  have t: "t + tz e = localDay e t * msPerDay + (t + tz e) mod msPerDay"
    by (simp add: localDay_def)
  have r: "0 \<le> (t + tz e) mod msPerDay" "(t + tz e) mod msPerDay < msPerDay"
    using msPerDay_pos by simp_all
  have "setHours e n 23 59 59 999 < t \<longleftrightarrow>
        localDay e n * msPerDay + 86399999 < t + tz e"
    by (simp add: setHours_end_eq) linarith
  also have "\<dots> \<longleftrightarrow> (localDay e n + 1) * msPerDay \<le> t + tz e"
    by (simp add: distrib_right msPerDay_def) linarith
  also have "\<dots> \<longleftrightarrow>
      (localDay e n + 1) * msPerDay \<le> localDay e t * msPerDay + (t + tz e) mod msPerDay"
    using t by simp
  also have "\<dots> \<longleftrightarrow> localDay e n + 1 \<le> localDay e t"
    using r by (rule day_le_iff)
  finally show ?thesis by linarith
qed

lemma isDateInCurrentWeekPeriod_days:
  "isDateInCurrentWeekPeriod e d ws we \<longleftrightarrow>
     localDay e ws \<le> localDay e d \<and> localDay e d \<le> localDay e we"
  by (simp add: isDateInCurrentWeekPeriod_def Let_def midnight_le_iff midnight_le_end_iff)

section \<open>Evaluating the service\<close>

lemmas date_defs =
  msPerDay_def msPerHour_def localDay_def weekdayOfDay_def getDay_def getHours_def setHours_def
  addDays_def isoDate_def localMidnight_def getWeekStart_def getWeekEnd_def parseDate_def
  isDateInCurrentWeekPeriod_def isDayOfWeek_def getNextDayOfWeekAfter_def

lemmas ledger_defs =
  StorageService_set_def genId_def generateWeekId_def getWeekIdMapping_def setWeekIdMapping_def
  getOrCreateWeekId_def getWeekStartDateById_def getAllTransactions_def getNextCloseDate_def
  getClosedWeeks_def isWeekClosed_def getAutoCloseConfig_def setAutoCloseConfig_def
  setNextCloseDate_def setCurrentWeekStart_def getCurrentWeekStart_def getCurrentWeekStartDate_def
  getCurrentWeekId_def getCurrentWeekEndDate_def isTransactionInClosedWeek_def currentWeekFilter_def
  getTransactionsByWeek_def getCurrentWeekTransactions_def calculateTotal_def getCurrentWeekTotal_def
  removeTransaction_def isCurrentWeekClosed_def isDateInClosedWeek_def closeWeek_schedule_def
  closeWeek_final_check_def closeWeek_manual_def
  closeWeek_commit_def closeWeek_def checkAndAutoCloseWeek_def createTransaction_def historyEntry_def
  getWeeksHistory_def

lemmas calendar_defs =
  sundayOnOrBefore_def currentWeekStartDay_def currentWeekEndDay_def inCurrentPeriod_def
  standardWeekKey_def weekIdFiledUnder_def standardWeekId_def closedByDate_def
  belongsToClosedWeek_def

section \<open>Basic facts about the service\<close>

lemma findWeekIdByDate_Some: "findWeekIdByDate k m = Some w \<Longrightarrow> (w, k) \<in> set m"
  by (induction m) (auto split: if_splits)

lemma obj_set_member: "(k, v) \<in> set (obj_set k v m)"
  by (induction m) auto

lemma getOrCreateWeekId_fields:
  assumes "getOrCreateWeekId e d s = (w, s')"
  shows "transactions s' = transactions s" "closed_weeks s' = closed_weeks s"
    "next_close_date s' = next_close_date s" "current_week_start s' = current_week_start s"
    "current_week_id s' = current_week_id s" "auto_close_config s' = auto_close_config s"
    "weekly_limit s' = weekly_limit s"
  using assms
  by (auto simp: getOrCreateWeekId_def generateWeekId_def setWeekIdMapping_def
      StorageService_set_def Let_def split: option.splits if_splits)

lemma getCurrentWeekId_fields:
  assumes "getCurrentWeekId e s = (w, s')"
  shows "transactions s' = transactions s" "closed_weeks s' = closed_weeks s"
    "next_close_date s' = next_close_date s" "current_week_start s' = current_week_start s"
    "auto_close_config s' = auto_close_config s" "weekly_limit s' = weekly_limit s"
  using assms
  by (auto simp: getCurrentWeekId_def StorageService_set_def Let_def
      dest: getOrCreateWeekId_fields split: option.splits if_splits prod.splits)

lemma getOrCreateWeekId_mapped:
  assumes "set_ok e WEEK_ID_MAPPING_KEY" and "getOrCreateWeekId e d s = (w, s')"
  shows "(w, isoDate d) \<in> set (week_id_mapping s')"
  using assms
  by (auto simp: getOrCreateWeekId_def generateWeekId_def setWeekIdMapping_def getWeekIdMapping_def
      StorageService_set_def Let_def obj_set_member
      dest: findWeekIdByDate_Some split: option.splits)

lemma isWeekClosed_cong: "closed_weeks s' = closed_weeks s \<Longrightarrow> isWeekClosed s' w = isWeekClosed s w"
  by (simp add: isWeekClosed_def getClosedWeeks_def)

lemma map_of_obj_set: "map_of (obj_set k v m) k = Some v"
  by (induction m) auto

lemma setNextCloseDate_ok:
  assumes "set_ok e NEXT_CLOSE_DATE_KEY"
    and "getDay e d = cfg_dayOfWeek (getAutoCloseConfig s)"
    and "localDay e (now e) < localDay e d"
  shows "setNextCloseDate e d s = (Inr (), s\<lparr>next_close_date := Some d\<rparr>)"
  using assms
  by (simp add: setNextCloseDate_def Let_def isDayOfWeek_def midnight_le_iff StorageService_set_def)

lemma setCurrentWeekStart_given:
  assumes "set_ok e CURRENT_WEEK_START_KEY" "set_ok e CURRENT_WEEK_ID_KEY" "w \<noteq> []"
  shows "setCurrentWeekStart e d (Some w) s =
           s\<lparr>current_week_start := Some (setHours e d 0 0 0 0), current_week_id := Some w\<rparr>"
  using assms by (simp add: setCurrentWeekStart_def Let_def StorageService_set_def)

lemma getCurrentWeekId_valid:
  assumes "current_week_id s = Some w" "w \<noteq> []" "map_of (week_id_mapping s) w = Some k"
    and "current_week_start s = Some (localMidnight e k)"
  shows "getCurrentWeekId e s = (w, s)"
  using assms
  by (simp add: getCurrentWeekId_def Let_def getWeekStartDateById_def getWeekIdMapping_def
      getCurrentWeekStartDate_def getCurrentWeekStart_def)

lemma genId_nonempty [simp]: "genId e n \<noteq> []"
  by (simp add: genId_def)

text \<open>The period of the current week, in days.\<close>

lemma localDay_getCurrentWeekStartDate:
  "localDay e (getCurrentWeekStartDate e s) = currentWeekStartDay e s"
  by (simp add: getCurrentWeekStartDate_def getCurrentWeekStart_def getNextCloseDate_def
      currentWeekStartDay_def Let_def midnight_less_iff localDay_addDays localDay_getWeekStart
      max_def split: option.splits)

lemma localDay_getCurrentWeekEndDate:
  "localDay e (getCurrentWeekEndDate e s) = currentWeekEndDay e s"
  by (simp add: getCurrentWeekEndDate_def getNextCloseDate_def currentWeekEndDay_def Let_def
      end_less_iff localDay_getWeekEnd localDay_getCurrentWeekStartDate split: option.splits)

lemma isDateInCurrentWeekPeriod_current:
  "isDateInCurrentWeekPeriod e d (getCurrentWeekStartDate e s) (getCurrentWeekEndDate e s)
     = inCurrentPeriod e s d"
  by (simp add: isDateInCurrentWeekPeriod_days inCurrentPeriod_def
      localDay_getCurrentWeekStartDate localDay_getCurrentWeekEndDate)

text \<open>The week of a date text.\<close>

lemma findWeekIdByDate_filed: "findWeekIdByDate k m = weekIdFiledUnder k m"
  by (induction m) (auto simp: weekIdFiledUnder_def)

lemma closedByDate_find:
  "closedByDate s k =
     (case findWeekIdByDate k (week_id_mapping s) of
        None \<Rightarrow> False
      | Some w \<Rightarrow> w \<in> set (closed_weeks s))"
  by (simp add: closedByDate_def findWeekIdByDate_filed)

lemma findWeekIdByDate_obj_set:
  "findWeekIdByDate k m = None \<Longrightarrow> findWeekIdByDate k (obj_set w k m) = Some w"
  by (induction m) auto

lemma getOrCreateWeekId_found:
  assumes "set_ok e WEEK_ID_MAPPING_KEY" and "getOrCreateWeekId e d s = (w, s')"
  shows "findWeekIdByDate (isoDate d) (week_id_mapping s') = Some w"
  using assms
  by (auto simp: getOrCreateWeekId_def Let_def getWeekIdMapping_def generateWeekId_def
      setWeekIdMapping_def StorageService_set_def findWeekIdByDate_obj_set split: option.splits)

lemma getOrCreateWeekId_standard:
  "fst (getOrCreateWeekId e d s) = standardWeekId e s (isoDate d)"
  by (simp add: getOrCreateWeekId_def Let_def getWeekIdMapping_def generateWeekId_def
      standardWeekId_def findWeekIdByDate_filed split: option.splits)

section \<open>Creating a transaction\<close>

lemma trim_cafe: "trim ''cafe'' = ''cafe''"
  by (simp add: trim_def isWhiteSpace_def)

text \<open>
  The attribution in every time zone: the rules compare days, and the standard week of
  the date is the week the mapping files under the date text of its Sunday's local
  midnight, as the mapping stands once the current week has its identifier.
\<close>

lemma createTransaction_attribution:
  assumes valid: "description \<noteq> []" "trim description \<noteq> []" "0 < amount" "dateString \<noteq> []"
      "parseDate e dateString = Some date"
    and cur: "getCurrentWeekId e s = (cur, s1)"
    and "open": "\<not> isWeekClosed s1 cur"
    and wr: "set_ok e WEEK_ID_MAPPING_KEY" "set_ok e FINANCE_STORAGE_KEY"
  shows "\<exists>t s3. createTransaction e description amount dateString s = (Inr t, s3)
      \<and> tx_weekId t =
          (if localDay e (now e) \<le> localDay e date then cur
           else if inCurrentPeriod e s date then cur
           else if standardWeekId e s1 (standardWeekKey e date) \<in> set (closed_weeks s) then cur
           else standardWeekId e s1 (standardWeekKey e date))
      \<and> weekIdFiledUnder (standardWeekKey e date) (week_id_mapping s3)
          = Some (standardWeekId e s1 (standardWeekKey e date))
      \<and> transactions s3 = transactions s @ [t]"
proof -
  obtain std s2 where std: "getOrCreateWeekId e (getWeekStart e date) s1 = (std, s2)"
    by (cases "getOrCreateWeekId e (getWeekStart e date) s1")
  have c2: "closed_weeks s2 = closed_weeks s"
    using getOrCreateWeekId_fields(2) [OF std] getCurrentWeekId_fields(2) [OF cur] by simp
  have c1: "closed_weeks s1 = closed_weeks s"
    using getCurrentWeekId_fields(2) [OF cur] by simp
  have o2: "\<not> isWeekClosed s2 cur"
    using "open" c1 c2 by (simp add: isWeekClosed_def getClosedWeeks_def)
  have t2: "transactions s2 = transactions s"
    using getOrCreateWeekId_fields(1) [OF std] getCurrentWeekId_fields(1) [OF cur] by simp
  have id: "std = standardWeekId e s1 (standardWeekKey e date)"
    using getOrCreateWeekId_standard [of e "getWeekStart e date" s1] std
    by (simp add: isoDate_getWeekStart)
  have m2: "weekIdFiledUnder (standardWeekKey e date) (week_id_mapping s2) = Some std"
    using getOrCreateWeekId_found [OF wr(1) std]
    by (simp add: findWeekIdByDate_filed isoDate_getWeekStart)
  have "\<exists>t s3. createTransaction e description amount dateString s = (Inr t, s3)
      \<and> tx_weekId t =
          (if localDay e (now e) \<le> localDay e date then cur
           else if inCurrentPeriod e s date then cur
           else if std \<in> set (closed_weeks s) then cur
           else std)
      \<and> weekIdFiledUnder (standardWeekKey e date) (week_id_mapping s3) = Some std
      \<and> transactions s3 = transactions s @ [t]"
    using valid cur "open" std wr o2 t2 m2 c2
    by (simp add: createTransaction_def Let_def StorageService_set_def getAllTransactions_def
        isWeekClosed_def getClosedWeeks_def midnight_le_iff isDateInCurrentWeekPeriod_current)
  then show ?thesis
    by (simp only: id)
qed

text \<open>
  Claim C1. In a time zone at or behind UTC, when the description, the amount and the
  date text pass the checks, the date parses to \<open>date\<close>, and the current week
  \<open>cur\<close> is open, \<open>createTransaction\<close> succeeds and appends one transaction whose
  \<open>weekId\<close> is decided in this order: the current week if the local day of \<open>date\<close>
  is today or later; else the current week if that day lies in the period of the current
  week, from its first to its last day; else the current week if the week of the Sunday
  on or before that day is closed; else the week of that Sunday. The week of the Sunday is
  the one that the mapping, as it stands once the current week has its identifier (in
  \<open>s1\<close>), files under the Sunday's date, or a newly generated one when it files none
  there; afterwards the mapping files that week under that date. (East of UTC the rules
  are the same and the date text is that of the Saturday before:
  \<open>createTransaction_attribution\<close>, \<open>standardWeekKey_saturday\<close>.)
\<close>

theorem createTransaction_weekId:
  assumes tz: "- msPerDay < tz e" "tz e \<le> 0"
    and valid: "description \<noteq> []" "trim description \<noteq> []" "0 < amount" "dateString \<noteq> []"
      "parseDate e dateString = Some date"
    and cur: "getCurrentWeekId e s = (cur, s1)"
    and "open": "\<not> isWeekClosed s1 cur"
    and wr: "set_ok e WEEK_ID_MAPPING_KEY" "set_ok e FINANCE_STORAGE_KEY"
  shows "\<exists>t s3. createTransaction e description amount dateString s = (Inr t, s3)
      \<and> tx_weekId t =
          (if localDay e (now e) \<le> localDay e date then cur
           else if inCurrentPeriod e s date then cur
           else if standardWeekId e s1 (sundayOnOrBefore (localDay e date))
                     \<in> set (closed_weeks s) then cur
           else standardWeekId e s1 (sundayOnOrBefore (localDay e date)))
      \<and> weekIdFiledUnder (sundayOnOrBefore (localDay e date)) (week_id_mapping s3)
          = Some (standardWeekId e s1 (sundayOnOrBefore (localDay e date)))
      \<and> transactions s3 = transactions s @ [t]"
  using createTransaction_attribution [OF valid cur "open" wr]
  by (simp only: standardWeekKey_sunday [OF tz])

text \<open>
  The four rules at work on Sunday 2 June 2024 in Brasilia, the current week \<open>w0\<close>
  having begun on Monday 27 May. A transaction dated today goes to \<open>w0\<close> although the
  period ended yesterday and the week of today's Sunday is another one, filed as
  \<open>week_x\<close>; one dated Tuesday 28 May goes to \<open>w0\<close> by the period; one dated
  Tuesday 21 May goes to \<open>w0\<close> when the week \<open>wP\<close> of Sunday 19 May (day 19862) is
  closed, and to the new week \<open>week_x\<close> of that Sunday otherwise.
\<close>

theorem createTransaction_weekId_witness:
  "(\<exists>t s3. createTransaction sunday_noon ''cafe'' 5 ''2024-06-02'' closing_overdue = (Inr t, s3)
      \<and> tx_weekId t = ''w0''
      \<and> \<not> inCurrentPeriod sunday_noon closing_overdue 1717297200000
      \<and> week_id_mapping s3 = [(''w0'', 19870), (''week_x'', 19876)]
      \<and> transactions s3 = [t])
   \<and> (\<exists>t s3. createTransaction sunday_noon ''cafe'' 5 ''2024-05-28'' week_of_27_may = (Inr t, s3)
      \<and> tx_weekId t = ''w0''
      \<and> week_id_mapping s3 = [(''w0'', 19870), (''week_x'', 19869)]
      \<and> transactions s3 = [t])
   \<and> (\<exists>t s3. createTransaction sunday_noon ''cafe'' 5 ''2024-05-21'' closed_standard_week
         = (Inr t, s3)
      \<and> tx_weekId t = ''w0''
      \<and> week_id_mapping s3 = [(''wP'', 19862), (''w0'', 19870)]
      \<and> transactions s3 = [t])
   \<and> (\<exists>t s3. createTransaction sunday_noon ''cafe'' 5 ''2024-05-21'' week_of_27_may = (Inr t, s3)
      \<and> tx_weekId t = ''week_x''
      \<and> week_id_mapping s3 = [(''w0'', 19870), (''week_x'', 19862)]
      \<and> transactions s3 = [t])"
proof -
  have 1: "\<exists>t s3. createTransaction sunday_noon ''cafe'' 5 ''2024-06-02'' closing_overdue = (Inr t, s3)
      \<and> tx_weekId t = ''w0''
      \<and> \<not> inCurrentPeriod sunday_noon closing_overdue 1717297200000
      \<and> week_id_mapping s3 = [(''w0'', 19870), (''week_x'', 19876)]
      \<and> transactions s3 = [t]"
    using createTransaction_weekId [where e = sunday_noon and s = closing_overdue
        and description = "''cafe''" and amount = 5 and dateString = "''2024-06-02''"
        and date = 1717297200000 and cur = "''w0''" and ?s1.0 = closing_overdue]
    by (simp add: trim_cafe sunday_noon_def closing_overdue_def ledger_defs date_defs Let_def
        calendar_defs)
  have 2: "\<exists>t s3. createTransaction sunday_noon ''cafe'' 5 ''2024-05-28'' week_of_27_may = (Inr t, s3)
      \<and> tx_weekId t = ''w0''
      \<and> week_id_mapping s3 = [(''w0'', 19870), (''week_x'', 19869)]
      \<and> transactions s3 = [t]"
    using createTransaction_weekId [where e = sunday_noon and s = week_of_27_may
        and description = "''cafe''" and amount = 5 and dateString = "''2024-05-28''"
        and date = 1716865200000 and cur = "''w0''" and ?s1.0 = week_of_27_may]
    by (simp add: trim_cafe sunday_noon_def week_of_27_may_def ledger_defs date_defs Let_def
        calendar_defs)
  have 3: "\<exists>t s3. createTransaction sunday_noon ''cafe'' 5 ''2024-05-21'' closed_standard_week
         = (Inr t, s3)
      \<and> tx_weekId t = ''w0''
      \<and> week_id_mapping s3 = [(''wP'', 19862), (''w0'', 19870)]
      \<and> transactions s3 = [t]"
    using createTransaction_weekId [where e = sunday_noon and s = closed_standard_week
        and description = "''cafe''" and amount = 5 and dateString = "''2024-05-21''"
        and date = 1716260400000 and cur = "''w0''" and ?s1.0 = closed_standard_week]
    by (simp add: trim_cafe sunday_noon_def closed_standard_week_def ledger_defs date_defs
        Let_def calendar_defs)
  have 4: "\<exists>t s3. createTransaction sunday_noon ''cafe'' 5 ''2024-05-21'' week_of_27_may = (Inr t, s3)
      \<and> tx_weekId t = ''week_x''
      \<and> week_id_mapping s3 = [(''w0'', 19870), (''week_x'', 19862)]
      \<and> transactions s3 = [t]"
    using createTransaction_weekId [where e = sunday_noon and s = week_of_27_may
        and description = "''cafe''" and amount = 5 and dateString = "''2024-05-21''"
        and date = 1716260400000 and cur = "''w0''" and ?s1.0 = week_of_27_may]
    by (simp add: trim_cafe sunday_noon_def week_of_27_may_def ledger_defs date_defs Let_def
        calendar_defs)
  from 1 2 3 4 show ?thesis by (intro conjI)
qed

text \<open>
  Claim C3. When the current week is closed, \<open>createTransaction\<close> fails and leaves the
  list of transactions as it was, whatever the date text is and whether or not it
  parses. Once the three checks of the arguments have passed, the error is
  \<open>ClosedWeekError\<close>, raised right after the current week is read, before the date
  is looked at by any rule of attribution.
\<close>

theorem createTransaction_closed_week:
  assumes cur: "getCurrentWeekId e s = (cur, s1)" and closed: "isWeekClosed s1 cur"
  shows "\<exists>err s'. createTransaction e description amount dateString s = (Inl err, s')
      \<and> transactions s' = transactions s
      \<and> (description \<noteq> [] \<and> trim description \<noteq> [] \<and> 0 < amount \<and> dateString \<noteq> []
           \<longrightarrow> err = ClosedWeekError \<and> s' = s1)"
  using assms getCurrentWeekId_fields(1) [OF cur]
  by (simp add: createTransaction_def Let_def)

theorem createTransaction_closed_week_witness:
  "createTransaction sunday_noon ''cafe'' 5 ''2024-06-02'' closed_current_week
     = (Inl ClosedWeekError, closed_current_week)"
  using createTransaction_closed_week [where e = sunday_noon and s = closed_current_week
      and cur = "''w0''" and ?s1.0 = closed_current_week and description = "''cafe''"
      and amount = 5 and dateString = "''2024-06-02''"]
  by (simp add: trim_cafe sunday_noon_def closed_current_week_def ledger_defs date_defs Let_def)

text \<open>
  Claim C8 as stated fails for a date text that is present and does not parse: no check
  looks at the parsed date. With the open week the call ends in the \<open>RangeError\<close> of
  \<open>toISOString()\<close>, with the closed week in \<open>ClosedWeekError\<close>; neither is a
  validation error.
\<close>

theorem createTransaction_unparseable_date:
  "parseDate sunday_noon ''amanha'' = None
   \<and> fst (createTransaction sunday_noon ''cafe'' 5 ''amanha'' week_of_27_may) = Inl InvalidTimeValue
   \<and> \<not> isValidationError InvalidTimeValue
   \<and> fst (createTransaction sunday_noon ''cafe'' 5 ''amanha'' closed_current_week) = Inl ClosedWeekError
   \<and> \<not> isValidationError ClosedWeekError"
  by (simp add: trim_cafe sunday_noon_def week_of_27_may_def closed_current_week_def
      ledger_defs date_defs Let_def)

text \<open>
  Claim C8, amended. \<open>createTransaction\<close> fails with a validation error and leaves the
  state as it was when the description is empty after trimming, when the amount is not
  greater than zero, or when the date text is empty; for all other arguments no
  validation error is raised. A date text that does not parse is not caught by
  the checks: the call then fails with \<open>ClosedWeekError\<close> when the current week is
  closed and with \<open>InvalidTimeValue\<close> otherwise, and no transaction is stored.
\<close>

theorem createTransaction_checks:
  "(if description = [] \<or> trim description = [] then
      createTransaction e description amount dateString s = (Inl EmptyDescription, s)
    else if amount \<le> 0 then
      createTransaction e description amount dateString s = (Inl NonPositiveAmount, s)
    else if dateString = [] then
      createTransaction e description amount dateString s = (Inl MissingDate, s)
    else
      (case fst (createTransaction e description amount dateString s) of
         Inl err \<Rightarrow> \<not> isValidationError err
       | Inr t \<Rightarrow> True)
      \<and> (parseDate e dateString = None \<longrightarrow>
            transactions (snd (createTransaction e description amount dateString s)) = transactions s
            \<and> fst (createTransaction e description amount dateString s) =
                Inl (if isWeekClosed (snd (getCurrentWeekId e s)) (fst (getCurrentWeekId e s))
                     then ClosedWeekError else InvalidTimeValue)))"
proof -
  obtain cur s1 where cur: "getCurrentWeekId e s = (cur, s1)"
    by (cases "getCurrentWeekId e s")
  show ?thesis
    using cur getCurrentWeekId_fields(1) [OF cur]
    by (auto simp: createTransaction_def Let_def split: option.splits prod.splits)
qed

theorem createTransaction_checks_witness:
  "createTransaction sunday_noon ''  '' 5 ''2024-06-02'' week_of_27_may
     = (Inl EmptyDescription, week_of_27_may)
   \<and> createTransaction sunday_noon ''cafe'' 0 ''2024-06-02'' week_of_27_may
     = (Inl NonPositiveAmount, week_of_27_may)
   \<and> createTransaction sunday_noon ''cafe'' 5 [] week_of_27_may
     = (Inl MissingDate, week_of_27_may)
   \<and> fst (createTransaction sunday_noon ''cafe'' 5 ''amanha'' week_of_27_may) = Inl InvalidTimeValue"
  using createTransaction_checks [of "''  ''" sunday_noon 5 "''2024-06-02''" week_of_27_may]
    createTransaction_checks [of "''cafe''" sunday_noon 0 "''2024-06-02''" week_of_27_may]
    createTransaction_checks [of "''cafe''" sunday_noon 5 "[]" week_of_27_may]
    createTransaction_checks [of "''cafe''" sunday_noon 5 "''amanha''" week_of_27_may]
  by (simp add: trim_cafe trim_def isWhiteSpace_def sunday_noon_def week_of_27_may_def
      ledger_defs date_defs Let_def)

section \<open>Closing a week: the failures\<close>

text \<open>
  Claim C4. A manual close (\<open>isManual\<close> true, no \<open>weekId\<close>) of a current week that
  is closed fails with \<open>AlreadyClosedError\<close> at the first check, and the rest of the
  body fails in the same way when the closed weeks it reads again hold the week. A
  manual close of an open week whose write of the closed weeks does not take effect,
  so that reading them back does not find the week, fails with
  \<open>PersistenceInconsistencyError\<close>. An automatic close (\<open>isManual\<close> false) of a
  given week that is closed returns false, raises nothing and leaves the state as it
  was, at the first check as well as at the second.
\<close>

theorem closeWeek_failures:
  "(getCurrentWeekId e s = (t, s1) \<and> isWeekClosed s1 t
      \<longrightarrow> closeWeek e None ncd True s = (Inl AlreadyClosedError, s1))
   \<and> (t \<in> set (getClosedWeeks s)
      \<longrightarrow> closeWeek_commit e t ncd True s = (Inl AlreadyClosedError, s))
   \<and> (getCurrentWeekId e s = (t, s1) \<and> \<not> isWeekClosed s1 t \<and> \<not> set_ok e CLOSED_WEEKS_KEY
      \<longrightarrow> closeWeek e None ncd True s = (Inl PersistenceInconsistencyError, s1))
   \<and> (w \<noteq> [] \<and> isWeekClosed s w
      \<longrightarrow> closeWeek e (Some w) ncd False s = (Inr False, s))
   \<and> (t \<in> set (getClosedWeeks s)
      \<longrightarrow> closeWeek_commit e t ncd False s = (Inr False, s))"
  by (simp add: closeWeek_def closeWeek_commit_def Let_def isWeekClosed_def
      StorageService_set_def)

theorem closeWeek_failures_witness:
  "closeWeek sunday_noon None None True closed_current_week
     = (Inl AlreadyClosedError, closed_current_week)
   \<and> closeWeek_commit sunday_noon ''w0'' None True closed_current_week
     = (Inl AlreadyClosedError, closed_current_week)
   \<and> closeWeek storage_full None None True week_of_27_may
     = (Inl PersistenceInconsistencyError, week_of_27_may)
   \<and> closeWeek sunday_noon (Some ''w0'') None False closed_current_week
     = (Inr False, closed_current_week)
   \<and> closeWeek_commit sunday_noon ''w0'' None False closed_current_week
     = (Inr False, closed_current_week)"
  using closeWeek_failures [of sunday_noon closed_current_week "''w0''" closed_current_week None "''w0''"]
    closeWeek_failures [of storage_full week_of_27_may "''w0''" week_of_27_may None "''w0''"]
  by (simp add: storage_full_def sunday_noon_def closed_current_week_def week_of_27_may_def
      ledger_defs date_defs Let_def)

section \<open>Closing a week by hand\<close>

text \<open>The state a manual close leaves, once the week is in the closed weeks.\<close>

lemma closeWeek_manual_result:
  assumes wr: "\<forall>k. set_ok e k"
    and tz: "- msPerDay < tz e" "tz e \<le> 0"
    and dow: "0 \<le> cfg_dayOfWeek (getAutoCloseConfig s)" "cfg_dayOfWeek (getAutoCloseConfig s) \<le> 6"
  shows "closeWeek_manual e (setHours e (now e) 0 0 0 0) (cfg_dayOfWeek (getAutoCloseConfig s)) s =
     (Inr True,
      (let closeDate = setHours e (now e) 0 0 0 0;
           newNextDay = getNextDayOfWeekAfter e (now e) (cfg_dayOfWeek (getAutoCloseConfig s));
           kept = (case next_close_date s of
                     None \<Rightarrow> Some newNextDay
                   | Some c \<Rightarrow> if localDay e (now e) < localDay e c then Some c else Some newNextDay);
           s4 = s\<lparr>rng := Suc (rng s),
                  week_id_mapping := obj_set (genId e (rng s)) (isoDate closeDate) (week_id_mapping s),
                  next_close_date := kept,
                  current_week_start := Some closeDate,
                  current_week_id := Some (genId e (rng s))\<rparr>
       in if genId e (rng s) \<in> set (closed_weeks s) then
            s4\<lparr>rng := Suc (Suc (rng s)),
               current_week_start := Some (setHours e (addDays closeDate 1) 0 0 0 0),
               current_week_id := Some (genId e (Suc (rng s)))\<rparr>
          else s4))"
proof -
  let ?k = "cfg_dayOfWeek (getAutoCloseConfig s)"
  let ?closeDate = "setHours e (now e) 0 0 0 0"
  let ?newNextDay = "getNextDayOfWeekAfter e (now e) ?k"
  let ?newId = "genId e (rng s)"
  let ?s2 = "s\<lparr>rng := Suc (rng s),
               week_id_mapping := obj_set ?newId (isoDate ?closeDate) (week_id_mapping s)\<rparr>"
  have cfg2: "getAutoCloseConfig ?s2 = getAutoCloseConfig s"
    by (simp add: getAutoCloseConfig_def)
  have day: "getDay e ?newNextDay = ?k"
    using dow by (rule getDay_getNextDayOfWeekAfter)
  have later: "localDay e (now e) < localDay e ?newNextDay"
    using dow by (rule getNextDayOfWeekAfter_later)
  have nc: "setNextCloseDate e ?newNextDay ?s2 = (Inr (), ?s2\<lparr>next_close_date := Some ?newNextDay\<rparr>)"
    using wr day later by (intro setNextCloseDate_ok) (simp_all add: cfg2)
  have valid: "getCurrentWeekId e (?s2\<lparr>next_close_date := n, current_week_start := Some ?closeDate,
                   current_week_id := Some ?newId\<rparr>)
               = (?newId, ?s2\<lparr>next_close_date := n, current_week_start := Some ?closeDate,
                   current_week_id := Some ?newId\<rparr>)" for n
    by (rule getCurrentWeekId_valid [where k = "isoDate ?closeDate"])
       (simp_all add: map_of_obj_set localMidnight_isoDate_midnight [OF tz])
  have valid2: "getCurrentWeekId e (?s2\<lparr>current_week_start := Some ?closeDate,
                   current_week_id := Some ?newId\<rparr>)
               = (?newId, ?s2\<lparr>current_week_start := Some ?closeDate,
                   current_week_id := Some ?newId\<rparr>)"
    by (rule getCurrentWeekId_valid [where k = "isoDate ?closeDate"])
       (simp_all add: map_of_obj_set localMidnight_isoDate_midnight [OF tz])
  show ?thesis
    using wr
    by (simp add: closeWeek_manual_def closeWeek_schedule_def closeWeek_final_check_def
        Let_def generateWeekId_def setWeekIdMapping_def
        getWeekIdMapping_def getNextCloseDate_def StorageService_set_def nc
        setCurrentWeekStart_given midnight_less_iff valid valid2 isWeekClosed_def getClosedWeeks_def
        split: option.splits)
qed


text \<open>
  Claim C2 as stated fails in three places. With the schedule on Wednesday and a next
  close already set to Sunday 9 June, a manual close on Sunday 2 June keeps 9 June,
  although the next Wednesday, 5 June, comes first: the kept date need not precede the
  next occurrence of the configured weekday. When the generated identifier is one of
  the closed weeks, the week that replaces it starts on Monday 3 June, the day after
  the close. And east of UTC, where the date text of a local midnight names the day
  before, a close on the day the current week was set up finds the old week again
  under that text and also ends with a week that starts on the day after.
\<close>

theorem closeWeek_manual_keeps_later_date:
  "getNextDayOfWeekAfter sunday_noon (now sunday_noon)
       (cfg_dayOfWeek (getAutoCloseConfig wednesday_schedule)) = 1717599600000
   \<and> next_close_date wednesday_schedule = Some 1717945200000
   \<and> fst (closeWeek sunday_noon None None True wednesday_schedule) = Inr True
   \<and> next_close_date (snd (closeWeek sunday_noon None None True wednesday_schedule))
       = Some 1717945200000
   \<and> fst (closeWeek sunday_noon None None True colliding_ids) = Inr True
   \<and> setHours sunday_noon (now sunday_noon) 0 0 0 0 = 1717297200000
   \<and> current_week_start (snd (closeWeek sunday_noon None None True colliding_ids))
       = Some 1717383600000
   \<and> fst (closeWeek lisbon_noon None None True started_today) = Inr True
   \<and> setHours lisbon_noon (now lisbon_noon) 0 0 0 0 = 1717282800000
   \<and> current_week_start (snd (closeWeek lisbon_noon None None True started_today))
       = Some 1717369200000"
  by (simp add: sunday_noon_def lisbon_noon_def wednesday_schedule_def colliding_ids_def
      started_today_def ledger_defs date_defs Let_def)

text \<open>
  Claim C2, amended. In a time zone at or behind UTC, with every write succeeding and a
  configured weekday in 0..6, a manual close of the open current week \<open>target\<close>
  succeeds and afterwards: \<open>target\<close> is the last of the closed weeks; the next
  close date is the one that was stored, unchanged, when that date lies on a local day
  after the day of the close, and otherwise the next occurrence of the configured
  weekday strictly after now; the current week is the newly generated identifier,
  mapped to the day of the close, its start is the local midnight of that day,
  \<open>getCurrentWeekId\<close> returns it and it is open. Only when the generated identifier
  is itself among the closed weeks is it replaced by the next generated identifier,
  with the start moved to the day after the close.
\<close>

theorem closeWeek_manual_close:
  assumes wr: "\<forall>k. set_ok e k"
    and tz: "- msPerDay < tz e" "tz e \<le> 0"
    and dow: "0 \<le> cfg_dayOfWeek (getAutoCloseConfig s)" "cfg_dayOfWeek (getAutoCloseConfig s) \<le> 6"
    and cur: "getCurrentWeekId e s = (target, s1)"
    and "open": "\<not> isWeekClosed s1 target"
  shows "\<exists>s'. closeWeek e None ncd True s = (Inr True, s')
     \<and> closed_weeks s' = closed_weeks s @ [target]
     \<and> target \<in> set (closed_weeks s')
     \<and> next_close_date s' =
         (case next_close_date s of
            None \<Rightarrow> Some (getNextDayOfWeekAfter e (now e) (cfg_dayOfWeek (getAutoCloseConfig s)))
          | Some c \<Rightarrow>
              if localDay e (now e) < localDay e c then Some c
              else Some (getNextDayOfWeekAfter e (now e) (cfg_dayOfWeek (getAutoCloseConfig s))))
     \<and> (if genId e (rng s1) \<in> set (closed_weeks s @ [target]) then
           current_week_id s' = Some (genId e (Suc (rng s1)))
           \<and> current_week_start s' =
               Some (setHours e (addDays (setHours e (now e) 0 0 0 0) 1) 0 0 0 0)
         else
           current_week_id s' = Some (genId e (rng s1))
           \<and> current_week_start s' = Some (setHours e (now e) 0 0 0 0)
           \<and> map_of (week_id_mapping s') (genId e (rng s1)) = Some (localDay e (now e))
           \<and> getCurrentWeekId e s' = (genId e (rng s1), s')
           \<and> \<not> isWeekClosed s' (genId e (rng s1)))"
proof -
  let ?s1a = "s1\<lparr>closed_weeks := closed_weeks s1 @ [target]\<rparr>"
  have f: "closed_weeks s1 = closed_weeks s" "next_close_date s1 = next_close_date s"
      "auto_close_config s1 = auto_close_config s"
    using getCurrentWeekId_fields [OF cur] by simp_all
  have cfg: "getAutoCloseConfig (s1\<lparr>closed_weeks := ws\<rparr>) = getAutoCloseConfig s" for ws
    using f by (simp add: getAutoCloseConfig_def)
  have dow': "0 \<le> cfg_dayOfWeek (getAutoCloseConfig ?s1a)" "cfg_dayOfWeek (getAutoCloseConfig ?s1a) \<le> 6"
    using dow by (simp_all only: cfg)
  have step: "closeWeek e None ncd True s =
      closeWeek_manual e (setHours e (now e) 0 0 0 0) (cfg_dayOfWeek (getAutoCloseConfig ?s1a)) ?s1a"
    using cur "open" wr
    by (simp add: closeWeek_def closeWeek_commit_def Let_def isWeekClosed_def getClosedWeeks_def
        StorageService_set_def)
  note res = closeWeek_manual_result [OF wr tz dow']
  have valid: "getCurrentWeekId e st = (w, st)"
    if "current_week_id st = Some w" "w \<noteq> []" "map_of (week_id_mapping st) w = Some (localDay e (now e))"
      "current_week_start st = Some (setHours e (now e) 0 0 0 0)" for st w
    using that
    by (intro getCurrentWeekId_valid [where k = "localDay e (now e)"])
       (simp_all add: localMidnight_def setHours_midnight_eq)
  show ?thesis
    unfolding step res
    using f
    by (auto simp: Let_def cfg map_of_obj_set isoDate_midnight [OF tz] isWeekClosed_def
        getClosedWeeks_def intro!: valid split: option.splits)
qed


theorem closeWeek_manual_close_witness:
  "\<exists>s'. closeWeek sunday_noon None None True week_of_27_may = (Inr True, s')
     \<and> closed_weeks s' = [''w0'']
     \<and> next_close_date s' = Some 1717945200000
     \<and> current_week_id s' = Some ''week_x''
     \<and> current_week_start s' = Some 1717297200000
     \<and> map_of (week_id_mapping s') ''week_x'' = Some 19876
     \<and> getCurrentWeekId sunday_noon s' = (''week_x'', s')"
  using closeWeek_manual_close [where e = sunday_noon and s = week_of_27_may
      and target = "''w0''" and ?s1.0 = week_of_27_may and ncd = None]
  by (simp add: sunday_noon_def week_of_27_may_def ledger_defs date_defs Let_def)

section \<open>The transactions of the current week\<close>

lemma obj_set_fresh: "k \<notin> fst ` set m \<Longrightarrow> obj_set k v m = m @ [(k, v)]"
  by (induction m) auto

lemma findWeekIdByDate_append:
  "findWeekIdByDate k (m @ [(w, d)]) =
     (case findWeekIdByDate k m of
        Some x \<Rightarrow> Some x
      | None \<Rightarrow> if d = k then Some w else None)"
  by (induction m) auto

lemma genId_inj: "genId e m = genId e n \<longleftrightarrow> gen e m = gen e n"
  by (simp add: genId_def)

lemma gen_fresh_step:
  assumes "gen_fresh e s"
  shows "gen_fresh e (s\<lparr>rng := Suc (rng s)\<rparr>)"
    and "gen_fresh e (s\<lparr>rng := Suc (rng s),
            week_id_mapping := week_id_mapping s @ [(genId e (rng s), k)]\<rparr>)"
proof -
  from assms have fr: "\<And>n. rng s \<le> n \<Longrightarrow> genId e n \<notin> fst ` set (week_id_mapping s)"
      "\<And>n. rng s \<le> n \<Longrightarrow> genId e n \<notin> set (closed_weeks s)"
    and inj: "inj_on (gen e) {rng s..}"
    by (simp_all add: gen_fresh_def)
  have inj': "inj_on (gen e) {Suc (rng s)..}"
    by (rule inj_on_subset [OF inj]) auto
  have ne: "genId e n \<noteq> genId e (rng s)" if "Suc (rng s) \<le> n" for n
  proof
    assume "genId e n = genId e (rng s)"
    then have "gen e n = gen e (rng s)" by (simp add: genId_inj)
    with inj that have "n = rng s" by (auto simp: inj_on_def)
    with that show False by simp
  qed
  show "gen_fresh e (s\<lparr>rng := Suc (rng s)\<rparr>)"
    using fr inj' by (simp add: gen_fresh_def)
  show "gen_fresh e (s\<lparr>rng := Suc (rng s),
            week_id_mapping := week_id_mapping s @ [(genId e (rng s), k)]\<rparr>)"
    using fr inj' ne by (auto simp: gen_fresh_def)
qed

lemma same_closing_refl: "gen_fresh e s \<Longrightarrow> same_closing e s s"
  by (simp add: same_closing_def)

lemma getOrCreateWeekId_same_closing:
  assumes sim: "same_closing e s st" and run: "getOrCreateWeekId e d st = (w, st')"
  shows "same_closing e s st' \<and> (w \<in> set (closed_weeks s) \<longleftrightarrow> closedByDate s (isoDate d))"
proof (cases "findWeekIdByDate (isoDate d) (week_id_mapping st)")
  case (Some x)
  with run have "w = x" "st' = st"
    by (simp_all add: getOrCreateWeekId_def Let_def getWeekIdMapping_def)
  moreover have "closedByDate st (isoDate d) \<longleftrightarrow> x \<in> set (closed_weeks st)"
    using Some by (simp add: closedByDate_find)
  moreover from sim have "closedByDate st (isoDate d) = closedByDate s (isoDate d)"
      "closed_weeks st = closed_weeks s"
    by (simp_all add: same_closing_def)
  ultimately show ?thesis using sim by simp
next
  case None
  from sim have fr: "gen_fresh e st" and cw: "closed_weeks st = closed_weeks s"
    and cd: "\<And>k. closedByDate st k = closedByDate s k"
    by (simp_all add: same_closing_def)
  from fr have nk: "genId e (rng st) \<notin> fst ` set (week_id_mapping st)"
    and nc: "genId e (rng st) \<notin> set (closed_weeks st)"
    by (simp_all add: gen_fresh_def)
  from None run have w: "w = genId e (rng st)"
    by (simp add: getOrCreateWeekId_def Let_def getWeekIdMapping_def generateWeekId_def)
  from None cd [of "isoDate d"] have notclosed: "\<not> closedByDate s (isoDate d)"
    by (simp add: closedByDate_find)
  show ?thesis
  proof (cases "set_ok e WEEK_ID_MAPPING_KEY")
    case True
    with None run nk have st': "st' = st\<lparr>rng := Suc (rng st),
        week_id_mapping := week_id_mapping st @ [(genId e (rng st), isoDate d)]\<rparr>"
      by (auto simp: getOrCreateWeekId_def Let_def getWeekIdMapping_def generateWeekId_def
          setWeekIdMapping_def StorageService_set_def obj_set_fresh)
    have "closedByDate st' k = closedByDate st k" for k
      using nc None
      by (auto simp: st' closedByDate_find findWeekIdByDate_append split: option.splits)
    then show ?thesis
      using gen_fresh_step(2) [OF fr, of "isoDate d"] cw cd w nc notclosed
      by (simp add: same_closing_def st')
  next
    case False
    with None run have st': "st' = st\<lparr>rng := Suc (rng st)\<rparr>"
      by (simp add: getOrCreateWeekId_def Let_def getWeekIdMapping_def generateWeekId_def
          setWeekIdMapping_def StorageService_set_def)
    have "closedByDate st' k = closedByDate st k" for k
      by (simp add: st' closedByDate_find split: option.splits)
    then show ?thesis
      using gen_fresh_step(1) [OF fr] cw cd w nc notclosed
      by (simp add: same_closing_def st')
  qed
qed

lemma closedByDate_pointer [simp]:
  "closedByDate (st\<lparr>current_week_id := x\<rparr>) k = closedByDate st k"
  by (simp add: closedByDate_find split: option.splits)

lemma gen_fresh_pointer [simp]:
  "gen_fresh e (st\<lparr>current_week_id := x\<rparr>) = gen_fresh e st"
  by (simp add: gen_fresh_def)

lemma same_closing_pointer:
  "same_closing e s st \<Longrightarrow> same_closing e s (st\<lparr>current_week_id := x\<rparr>)"
  by (simp add: same_closing_def)

lemma getCurrentWeekId_same_closing:
  assumes "same_closing e s st" and "getCurrentWeekId e st = (w, st')"
  shows "same_closing e s st'"
  using assms
  by (auto simp: getCurrentWeekId_def Let_def StorageService_set_def same_closing_pointer
      dest: getOrCreateWeekId_same_closing split: option.splits if_splits prod.splits)

lemma isTransactionInClosedWeek_same_closing:
  assumes sim: "same_closing e s st" and run: "isTransactionInClosedWeek e t st = (b, st')"
  shows "same_closing e s st' \<and> b = belongsToClosedWeek e s t"
proof (cases "tx_weekId t \<in> set (closed_weeks st)")
  case True
  with sim run show ?thesis
    by (auto simp: isTransactionInClosedWeek_def isWeekClosed_def getClosedWeeks_def
        belongsToClosedWeek_def same_closing_def)
next
  case False
  obtain w st1 where g: "getOrCreateWeekId e (getWeekStart e (tx_date t)) st = (w, st1)"
    by (cases "getOrCreateWeekId e (getWeekStart e (tx_date t)) st")
  note r = getOrCreateWeekId_same_closing [OF sim g]
  from r have cw: "closed_weeks st1 = closed_weeks s" by (simp add: same_closing_def)
  from sim have cw0: "closed_weeks st = closed_weeks s" by (simp add: same_closing_def)
  from False run g have "st' = st1" "b = (w \<in> set (closed_weeks st1))"
    by (auto simp: isTransactionInClosedWeek_def isWeekClosed_def getClosedWeeks_def Let_def
        split: if_splits)
  with r cw cw0 False show ?thesis
    by (simp add: belongsToClosedWeek_def isoDate_getWeekStart)
qed

lemma filter_st_invariant:
  assumes step: "\<And>x st b st'. I st \<Longrightarrow> p x st = (b, st') \<Longrightarrow> I st' \<and> b = P x"
    and "I st"
  shows "fst (filter_st p xs st) = filter P xs \<and> I (snd (filter_st p xs st))"
  using \<open>I st\<close>
proof (induction xs arbitrary: st)
  case Nil
  then show ?case by simp
next
  case (Cons x xs)
  obtain b st1 where p: "p x st = (b, st1)" by (cases "p x st")
  from step [OF Cons.prems p] have i1: "I st1" and b: "b = P x" by simp_all
  from Cons.IH [OF i1] show ?case
    using p b by (simp add: split_beta)
qed


lemma getOrCreateWeekId_again:
  "findWeekIdByDate (isoDate d) (week_id_mapping s) = Some w \<Longrightarrow> getOrCreateWeekId e d s = (w, s)"
  by (simp add: getOrCreateWeekId_def Let_def getWeekIdMapping_def)

lemma getCurrentWeekStartDate_cong:
  "current_week_start s' = current_week_start s \<Longrightarrow> next_close_date s' = next_close_date s
   \<Longrightarrow> getCurrentWeekStartDate e s' = getCurrentWeekStartDate e s"
  by (simp add: getCurrentWeekStartDate_def getCurrentWeekStart_def getNextCloseDate_def
      split: option.splits)

lemma getCurrentWeekEndDate_cong:
  "current_week_start s' = current_week_start s \<Longrightarrow> next_close_date s' = next_close_date s
   \<Longrightarrow> getCurrentWeekEndDate e s' = getCurrentWeekEndDate e s"
  using getCurrentWeekStartDate_cong [of s' s e]
  by (simp add: getCurrentWeekEndDate_def getNextCloseDate_def split: option.splits)

lemma getCurrentWeekId_cases:
  assumes "getCurrentWeekId e s = (w, s')"
  shows "s' = s \<or>
     (\<exists>s1. getOrCreateWeekId e (getCurrentWeekStartDate e s) s = (w, s1)
        \<and> s' = StorageService_set e CURRENT_WEEK_ID_KEY (\<lambda>s. s\<lparr>current_week_id := Some w\<rparr>) s1)"
  using assms
  by (auto simp: getCurrentWeekId_def Let_def split: option.splits if_splits prod.splits)

lemma getCurrentWeekId_idem:
  assumes wr: "set_ok e WEEK_ID_MAPPING_KEY" "set_ok e CURRENT_WEEK_ID_KEY"
    and run: "getCurrentWeekId e s = (w, s')"
  shows "getCurrentWeekId e s' = (w, s')"
proof -
  from getCurrentWeekId_cases [OF run] show ?thesis
  proof
    assume "s' = s"
    with run show ?thesis by simp
  next
    assume "\<exists>s1. getOrCreateWeekId e (getCurrentWeekStartDate e s) s = (w, s1)
        \<and> s' = StorageService_set e CURRENT_WEEK_ID_KEY (\<lambda>s. s\<lparr>current_week_id := Some w\<rparr>) s1"
    then obtain s1 where g: "getOrCreateWeekId e (getCurrentWeekStartDate e s) s = (w, s1)"
      and s': "s' = s1\<lparr>current_week_id := Some w\<rparr>"
      using wr by (auto simp: StorageService_set_def)
    have found: "findWeekIdByDate (isoDate (getCurrentWeekStartDate e s)) (week_id_mapping s') = Some w"
      using getOrCreateWeekId_found [OF wr(1) g] by (simp add: s')
    have start: "getCurrentWeekStartDate e s' = getCurrentWeekStartDate e s"
      using getOrCreateWeekId_fields [OF g] by (intro getCurrentWeekStartDate_cong) (simp_all add: s')
    have again: "getOrCreateWeekId e (getCurrentWeekStartDate e s') s' = (w, s')"
      unfolding start using found by (rule getOrCreateWeekId_again)
    have same: "s'\<lparr>current_week_id := Some w\<rparr> = s'"
      by (simp add: s')
    have cid: "current_week_id s' = Some w"
      by (simp add: s')
    show ?thesis
      using wr(2) cid
      by (simp add: getCurrentWeekId_def [of e s'] Let_def again StorageService_set_def same
          split: option.splits)
  qed
qed


text \<open>
  What \<open>getCurrentWeekTransactions\<close> computes, through the tests of the code.
\<close>

lemma getCurrentWeekTransactions_filter:
  assumes wr: "set_ok e WEEK_ID_MAPPING_KEY" "set_ok e CURRENT_WEEK_ID_KEY"
    and fresh: "gen_fresh e s"
    and cur: "getCurrentWeekId e s = (cur, s1)"
  shows "fst (getCurrentWeekTransactions e s) =
     (if isWeekClosed s cur then []
      else filter
             (\<lambda>t. tx_weekId t = cur
                 \<or> (isDateInCurrentWeekPeriod e (tx_date t)
                       (getCurrentWeekStartDate e s) (getCurrentWeekEndDate e s)
                     \<and> \<not> belongsToClosedWeek e s t))
             (transactions s))"
proof (cases "isWeekClosed s cur")
  case True
  with cur getCurrentWeekId_fields(2) [OF cur] show ?thesis
    by (simp add: getCurrentWeekTransactions_def isWeekClosed_def getClosedWeeks_def)
next
  case False
  let ?ws = "getCurrentWeekStartDate e s"
  let ?we = "getCurrentWeekEndDate e s"
  let ?P = "\<lambda>t. tx_weekId t = cur
                 \<or> (isDateInCurrentWeekPeriod e (tx_date t) ?ws ?we \<and> \<not> belongsToClosedWeek e s t)"
  let ?Q = "\<lambda>t. tx_weekId t = cur \<or> \<not> belongsToClosedWeek e s t"
  note f = getCurrentWeekId_fields [OF cur]
  have open1: "\<not> isWeekClosed s1 cur"
    using False f by (simp add: isWeekClosed_def getClosedWeeks_def)
  have sim1: "same_closing e s s1"
    using same_closing_refl [OF fresh] cur by (rule getCurrentWeekId_same_closing)
  have again: "getCurrentWeekId e s1 = (cur, s1)"
    using wr cur by (rule getCurrentWeekId_idem)
  have ws: "getCurrentWeekStartDate e s1 = ?ws" and we: "getCurrentWeekEndDate e s1 = ?we"
    using f by (simp_all only: getCurrentWeekStartDate_cong [of s1 s e]
        getCurrentWeekEndDate_cong [of s1 s e])
  have stepP: "same_closing e s st' \<and> b = ?P t"
    if "same_closing e s st" "currentWeekFilter e cur ?ws ?we t st = (b, st')" for t st b st'
  proof (cases "tx_weekId t = cur")
    case True
    from that(1) have "closed_weeks st = closed_weeks s" by (simp add: same_closing_def)
    with True False that show ?thesis
      by (auto simp: currentWeekFilter_def isWeekClosed_def getClosedWeeks_def)
  next
    case ne: False
    obtain b1 st1 where i1: "isTransactionInClosedWeek e t st = (b1, st1)"
      by (cases "isTransactionInClosedWeek e t st")
    note r1 = isTransactionInClosedWeek_same_closing [OF that(1) i1]
    obtain b2 st2 where i2: "isTransactionInClosedWeek e t st1 = (b2, st2)"
      by (cases "isTransactionInClosedWeek e t st1")
    from r1 have sim': "same_closing e s st1" by simp
    note r2 = isTransactionInClosedWeek_same_closing [OF sim' i2]
    from ne that(2) i1 i2 r1 r2 show ?thesis
      by (auto simp: currentWeekFilter_def split: if_splits)
  qed
  have stepQ: "same_closing e s st' \<and> b = ?Q t"
    if "same_closing e s st"
      "(if tx_weekId t = cur then (True, st)
        else (case isTransactionInClosedWeek e t st of (inClosed, s') \<Rightarrow> (\<not> inClosed, s'))) = (b, st')"
    for t st b st'
  proof (cases "tx_weekId t = cur")
    case True
    with that show ?thesis by auto
  next
    case ne: False
    obtain b1 st1 where i1: "isTransactionInClosedWeek e t st = (b1, st1)"
      by (cases "isTransactionInClosedWeek e t st")
    note r1 = isTransactionInClosedWeek_same_closing [OF that(1) i1]
    from ne that(2) i1 r1 show ?thesis by auto
  qed
  obtain txs s2 where byWeek: "getTransactionsByWeek e cur s1 = (txs, s2)"
    by (cases "getTransactionsByWeek e cur s1")
  have byWeek': "filter_st (currentWeekFilter e cur ?ws ?we) (transactions s) s1 = (txs, s2)"
    using byWeek again ws we f
    by (simp add: getTransactionsByWeek_def Let_def getAllTransactions_def)
  from filter_st_invariant [where I = "same_closing e s" and P = ?P
      and p = "currentWeekFilter e cur ?ws ?we" and xs = "transactions s", OF stepP sim1]
  have txs: "txs = filter ?P (transactions s)" and sim2: "same_closing e s s2"
    using byWeek' by simp_all
  from filter_st_invariant [where I = "same_closing e s" and P = ?Q, OF stepQ sim2]
  have "fst (filter_st
               (\<lambda>t s. if tx_weekId t = cur then (True, s)
                      else (case isTransactionInClosedWeek e t s of
                              (inClosed, s') \<Rightarrow> (\<not> inClosed, s')))
               txs s2) = filter ?Q txs"
    by simp
  moreover have "filter ?Q (filter ?P (transactions s)) = filter ?P (transactions s)"
    by (auto intro: filter_cong)
  ultimately show ?thesis
    using cur open1 byWeek txs False
    by (simp add: getCurrentWeekTransactions_def)
qed


text \<open>
  Claim C6. When the current week is closed, \<open>getCurrentWeekTransactions\<close> returns the
  empty list. When it is open, it returns, in the order of the log, exactly the
  transactions whose \<open>weekId\<close> is the current week's, together with every
  transaction whose local day lies in the period of the current week, from its first to
  its last day, and which does not belong to a closed week: neither its own
  \<open>weekId\<close> is closed, nor the week that the mapping files under the date text of the
  local midnight of the Sunday on or before its day (at or behind UTC the date of that
  Sunday, by \<open>standardWeekKey_sunday\<close>). The identifiers generated on the way are
  taken to be new, and the writes of the mapping and of the current week's identifier to
  succeed.
\<close>

theorem getCurrentWeekTransactions_spec:
  assumes wr: "set_ok e WEEK_ID_MAPPING_KEY" "set_ok e CURRENT_WEEK_ID_KEY"
    and fresh: "gen_fresh e s"
    and cur: "getCurrentWeekId e s = (cur, s1)"
  shows "fst (getCurrentWeekTransactions e s) =
     (if cur \<in> set (closed_weeks s) then []
      else filter
             (\<lambda>t. tx_weekId t = cur
                 \<or> (currentWeekStartDay e s \<le> localDay e (tx_date t)
                     \<and> localDay e (tx_date t) \<le> currentWeekEndDay e s
                     \<and> tx_weekId t \<notin> set (closed_weeks s)
                     \<and> \<not> closedByDate s (standardWeekKey e (tx_date t))))
             (transactions s))"
  using getCurrentWeekTransactions_filter [OF wr fresh cur]
  by (simp add: isDateInCurrentWeekPeriod_current inCurrentPeriod_def belongsToClosedWeek_def
      isWeekClosed_def getClosedWeeks_def conj_ac cong: conj_cong)

text \<open>
  On Sunday 2 June 2024 in Brasilia, with the current week \<open>w0\<close> begun on Monday 27 May
  and lasting until Saturday 8 June: of the five transactions of \<open>backfilled\<close>,
  \<open>t1\<close> is returned for its \<open>weekId\<close> and \<open>t2\<close> for its date; \<open>t3\<close> is left
  out for its closed \<open>weekId\<close>, \<open>t4\<close> for its date, before the period, and \<open>t5\<close>
  for the closed week of Sunday 26 May, which holds its date.
\<close>

lemma gen_fresh_backfilled: "gen_fresh sunday_noon backfilled"
  by (auto simp: gen_fresh_def sunday_noon_def backfilled_def genId_def inj_on_def)

theorem getCurrentWeekTransactions_spec_witness:
  "fst (getCurrentWeekId sunday_noon backfilled) = ''w0''
   \<and> map tx_id (fst (getCurrentWeekTransactions sunday_noon backfilled)) = [''t1'', ''t2'']
   \<and> fst (getCurrentWeekTransactions sunday_noon closed_current_week) = []"
proof -
  have a: "getCurrentWeekId sunday_noon backfilled = (''w0'', backfilled)"
    by (simp add: sunday_noon_def backfilled_def ledger_defs date_defs Let_def)
  have b: "getCurrentWeekId sunday_noon closed_current_week = (''w0'', closed_current_week)"
    by (simp add: sunday_noon_def closed_current_week_def ledger_defs date_defs Let_def)
  have c: "gen_fresh sunday_noon closed_current_week"
    by (auto simp: gen_fresh_def sunday_noon_def closed_current_week_def genId_def inj_on_def)
  have w: "set_ok sunday_noon WEEK_ID_MAPPING_KEY" "set_ok sunday_noon CURRENT_WEEK_ID_KEY"
    by (simp_all add: sunday_noon_def)
  have 1: "map tx_id (fst (getCurrentWeekTransactions sunday_noon backfilled)) = [''t1'', ''t2'']"
    unfolding getCurrentWeekTransactions_spec [OF w gen_fresh_backfilled a]
    by (simp add: sunday_noon_def backfilled_def calendar_defs date_defs Let_def)
  have 2: "fst (getCurrentWeekTransactions sunday_noon closed_current_week) = []"
    unfolding getCurrentWeekTransactions_spec [OF w c b]
    by (simp add: closed_current_week_def)
  from a 1 2 show ?thesis by simp
qed

section \<open>The closed weeks and the mapping only grow\<close>

lemma keeps_refl [simp]: "keeps e s s"
  by (simp add: keeps_def ledger_grows_def)

lemma keeps_trans: "keeps e s s1 \<Longrightarrow> keeps e s1 s2 \<Longrightarrow> keeps e s s2"
  by (auto simp: keeps_def ledger_grows_def)

lemma ids_new_mono:
  assumes "ids_new e s" "week_id_mapping s' = week_id_mapping s" "rng s \<le> rng s'"
  shows "ids_new e s'"
proof -
  from assms(1) have a: "\<And>n. rng s \<le> n \<Longrightarrow> genId e n \<notin> fst ` set (week_id_mapping s)"
    and inj: "inj_on (gen e) {rng s..}"
    by (simp_all add: ids_new_def)
  have "inj_on (gen e) {rng s'..}"
    by (rule inj_on_subset [OF inj]) (use assms(3) in auto)
  with a assms(2,3) show ?thesis
    by (simp add: ids_new_def)
qed

lemma keeps_same:
  assumes "closed_weeks s' = closed_weeks s" "week_id_mapping s' = week_id_mapping s"
    "rng s \<le> rng s'"
  shows "keeps e s s'"
  using assms ids_new_mono [of e s s']
  by (simp add: keeps_def ledger_inv_def ledger_grows_def)

lemma keeps_set:
  assumes "closed_weeks (write s) = closed_weeks s" "week_id_mapping (write s) = week_id_mapping s"
    "rng (write s) = rng s"
  shows "keeps e s (StorageService_set e k write s)"
  using assms by (auto simp: StorageService_set_def intro: keeps_same)

lemma ids_new_append:
  assumes "ids_new e s"
  shows "ids_new e (s\<lparr>rng := Suc (rng s),
            week_id_mapping := week_id_mapping s @ [(genId e (rng s), k)]\<rparr>)"
proof -
  from assms have fr: "\<And>n. rng s \<le> n \<Longrightarrow> genId e n \<notin> fst ` set (week_id_mapping s)"
    and inj: "inj_on (gen e) {rng s..}"
    by (simp_all add: ids_new_def)
  have inj': "inj_on (gen e) {Suc (rng s)..}"
    by (rule inj_on_subset [OF inj]) auto
  have ne: "genId e n \<noteq> genId e (rng s)" if "Suc (rng s) \<le> n" for n
  proof
    assume "genId e n = genId e (rng s)"
    then have "gen e n = gen e (rng s)" by (simp add: genId_inj)
    with inj that have "n = rng s" by (auto simp: inj_on_def)
    with that show False by simp
  qed
  show ?thesis
    using fr inj' ne by (auto simp: ids_new_def)
qed

text \<open>Drawing an identifier and storing it in the mapping under a date.\<close>

lemma keeps_new_entry:
  "keeps e s (setWeekIdMapping e (obj_set (genId e (rng s)) k (week_id_mapping s))
                (s\<lparr>rng := Suc (rng s)\<rparr>))"
proof (cases "set_ok e WEEK_ID_MAPPING_KEY")
  case False
  then show ?thesis
    by (simp add: setWeekIdMapping_def StorageService_set_def keeps_same)
next
  case True
  show ?thesis
    unfolding keeps_def
  proof (intro impI, elim conjE)
    assume inv: "ledger_inv s" and new: "ids_new e s"
    from new have nk: "genId e (rng s) \<notin> fst ` set (week_id_mapping s)"
      by (simp add: ids_new_def)
    have eq: "setWeekIdMapping e (obj_set (genId e (rng s)) k (week_id_mapping s))
                (s\<lparr>rng := Suc (rng s)\<rparr>)
              = s\<lparr>rng := Suc (rng s),
                   week_id_mapping := week_id_mapping s @ [(genId e (rng s), k)]\<rparr>"
      using True nk by (simp add: setWeekIdMapping_def StorageService_set_def obj_set_fresh)
    show "ledger_inv (setWeekIdMapping e (obj_set (genId e (rng s)) k (week_id_mapping s))
                (s\<lparr>rng := Suc (rng s)\<rparr>))
        \<and> ids_new e (setWeekIdMapping e (obj_set (genId e (rng s)) k (week_id_mapping s))
                (s\<lparr>rng := Suc (rng s)\<rparr>))
        \<and> ledger_grows s (setWeekIdMapping e (obj_set (genId e (rng s)) k (week_id_mapping s))
                (s\<lparr>rng := Suc (rng s)\<rparr>))"
      unfolding eq
      using inv nk ids_new_append [OF new, of k]
      by (auto simp: ledger_inv_def ledger_grows_def)
  qed
qed

lemma getOrCreateWeekId_keeps:
  assumes "getOrCreateWeekId e d s = (w, s')"
  shows "keeps e s s'"
  using assms keeps_new_entry [of e s "isoDate d"]
  by (auto simp: getOrCreateWeekId_def Let_def getWeekIdMapping_def generateWeekId_def
      split: option.splits)

lemma getCurrentWeekId_keeps:
  assumes "getCurrentWeekId e s = (w, s')"
  shows "keeps e s s'"
proof -
  from getCurrentWeekId_cases [OF assms] show ?thesis
  proof
    assume "s' = s"
    then show ?thesis by simp
  next
    assume "\<exists>s1. getOrCreateWeekId e (getCurrentWeekStartDate e s) s = (w, s1)
        \<and> s' = StorageService_set e CURRENT_WEEK_ID_KEY (\<lambda>s. s\<lparr>current_week_id := Some w\<rparr>) s1"
    then obtain s1 where g: "getOrCreateWeekId e (getCurrentWeekStartDate e s) s = (w, s1)"
      and s': "s' = StorageService_set e CURRENT_WEEK_ID_KEY (\<lambda>s. s\<lparr>current_week_id := Some w\<rparr>) s1"
      by blast
    have "keeps e s1 s'"
      unfolding s' by (rule keeps_set) simp_all
    with getOrCreateWeekId_keeps [OF g] show ?thesis
      by (rule keeps_trans)
  qed
qed

lemma isTransactionInClosedWeek_keeps:
  assumes "isTransactionInClosedWeek e t s = (b, s')"
  shows "keeps e s s'"
  using assms
  by (auto simp: isTransactionInClosedWeek_def Let_def split: if_splits prod.splits
      dest: getOrCreateWeekId_keeps)

lemma filter_st_keeps:
  assumes step: "\<And>x st b st'. p x st = (b, st') \<Longrightarrow> keeps e st st'"
    and "filter_st p xs s = (ys, s')"
  shows "keeps e s s'"
  using assms(2)
proof (induction xs arbitrary: s ys s')
  case Nil
  then show ?case by simp
next
  case (Cons x xs)
  obtain b s1 where p: "p x s = (b, s1)" by (cases "p x s")
  obtain zs s2 where f: "filter_st p xs s1 = (zs, s2)" by (cases "filter_st p xs s1")
  from Cons.prems p f have "s' = s2" by (simp split: if_splits)
  with step [OF p] Cons.IH [OF f] show ?case
    by (blast intro: keeps_trans)
qed

lemma map_st_keeps:
  assumes step: "\<And>x st y st'. f x st = (y, st') \<Longrightarrow> keeps e st st'"
    and "map_st f xs s = (ys, s')"
  shows "keeps e s s'"
  using assms(2)
proof (induction xs arbitrary: s ys s')
  case Nil
  then show ?case by simp
next
  case (Cons x xs)
  obtain y s1 where p: "f x s = (y, s1)" by (cases "f x s")
  obtain zs s2 where m: "map_st f xs s1 = (zs, s2)" by (cases "map_st f xs s1")
  from Cons.prems p m have "s' = s2" by simp
  with step [OF p] Cons.IH [OF m] show ?case
    by (blast intro: keeps_trans)
qed

lemma currentWeekFilter_keeps:
  assumes "currentWeekFilter e w ws we t s = (b, s')"
  shows "keeps e s s'"
proof -
  obtain b1 s1 where i1: "isTransactionInClosedWeek e t s = (b1, s1)"
    by (cases "isTransactionInClosedWeek e t s")
  obtain b2 s2 where i2: "isTransactionInClosedWeek e t s1 = (b2, s2)"
    by (cases "isTransactionInClosedWeek e t s1")
  note k1 = isTransactionInClosedWeek_keeps [OF i1]
  note k2 = keeps_trans [OF k1 isTransactionInClosedWeek_keeps [OF i2]]
  from assms i1 i2 k1 k2 show ?thesis
    by (auto simp: currentWeekFilter_def split: if_splits)
qed

lemma getTransactionsByWeek_keeps:
  assumes "getTransactionsByWeek e w s = (txs, s')"
  shows "keeps e s s'"
proof -
  obtain cur s1 where c: "getCurrentWeekId e s = (cur, s1)"
    by (cases "getCurrentWeekId e s")
  note k1 = getCurrentWeekId_keeps [OF c]
  show ?thesis
  proof (cases "w = cur")
    case True
    with assms c have "filter_st (currentWeekFilter e w (getCurrentWeekStartDate e s1)
        (getCurrentWeekEndDate e s1)) (transactions s) s1 = (txs, s')"
      by (simp add: getTransactionsByWeek_def Let_def getAllTransactions_def)
    then have "keeps e s1 s'"
      by (rule filter_st_keeps [rotated]) (rule currentWeekFilter_keeps)
    with k1 show ?thesis by (rule keeps_trans)
  next
    case False
    with assms c have "s' = s1"
      by (simp add: getTransactionsByWeek_def Let_def)
    with k1 show ?thesis by simp
  qed
qed

lemma getCurrentWeekTransactions_keeps:
  assumes "getCurrentWeekTransactions e s = (txs, s')"
  shows "keeps e s s'"
proof -
  obtain cur s1 where c: "getCurrentWeekId e s = (cur, s1)"
    by (cases "getCurrentWeekId e s")
  note k1 = getCurrentWeekId_keeps [OF c]
  show ?thesis
  proof (cases "isWeekClosed s1 cur")
    case True
    with assms c have "s' = s1" by (simp add: getCurrentWeekTransactions_def)
    with k1 show ?thesis by simp
  next
    case False
    obtain ys s2 where g: "getTransactionsByWeek e cur s1 = (ys, s2)"
      by (cases "getTransactionsByWeek e cur s1")
    note k2 = keeps_trans [OF k1 getTransactionsByWeek_keeps [OF g]]
    from assms c False g have "filter_st
        (\<lambda>t s. if tx_weekId t = cur then (True, s)
               else (case isTransactionInClosedWeek e t s of (inClosed, s') \<Rightarrow> (\<not> inClosed, s')))
        ys s2 = (txs, s')"
      by (simp add: getCurrentWeekTransactions_def)
    then have "keeps e s2 s'"
      by (rule filter_st_keeps [rotated])
         (auto split: if_splits prod.splits dest: isTransactionInClosedWeek_keeps)
    with k2 show ?thesis by (rule keeps_trans)
  qed
qed


lemma getCurrentWeekTotal_keeps:
  "getCurrentWeekTotal e s = (x, s') \<Longrightarrow> keeps e s s'"
  by (auto simp: getCurrentWeekTotal_def split: prod.splits dest: getCurrentWeekTransactions_keeps)

lemma isWeeklyLimitExceeded_keeps:
  "isWeeklyLimitExceeded e s = (x, s') \<Longrightarrow> keeps e s s'"
  by (auto simp: isWeeklyLimitExceeded_def split: option.splits prod.splits
      dest: getCurrentWeekTotal_keeps)

lemma getWeeklyLimitUsage_keeps:
  "getWeeklyLimitUsage e s = (x, s') \<Longrightarrow> keeps e s s'"
  by (auto simp: getWeeklyLimitUsage_def split: option.splits prod.splits
      dest: getCurrentWeekTotal_keeps)

lemma isCurrentWeekClosed_keeps:
  "isCurrentWeekClosed e s = (x, s') \<Longrightarrow> keeps e s s'"
  by (auto simp: isCurrentWeekClosed_def split: prod.splits dest: getCurrentWeekId_keeps)

lemma isDateInClosedWeek_keeps:
  "isDateInClosedWeek e d s = (x, s') \<Longrightarrow> keeps e s s'"
  by (auto simp: isDateInClosedWeek_def split: prod.splits dest: getOrCreateWeekId_keeps)

lemma removeTransaction_keeps:
  "removeTransaction e i s = (x, s') \<Longrightarrow> keeps e s s'"
  by (auto simp: removeTransaction_def Let_def intro!: keeps_set)

lemma setAutoCloseConfig_keeps: "keeps e s (setAutoCloseConfig e c s)"
  by (auto simp: setAutoCloseConfig_def intro!: keeps_set)

lemma setWeeklyLimit_keeps:
  "setWeeklyLimit e l s = (x, s') \<Longrightarrow> keeps e s s'"
  by (auto simp: setWeeklyLimit_def split: option.splits if_splits intro!: keeps_set)

lemma setNextCloseDate_keeps:
  "setNextCloseDate e d s = (x, s') \<Longrightarrow> keeps e s s'"
  by (auto simp: setNextCloseDate_def Let_def split: if_splits intro!: keeps_set)

lemma setCurrentWeekStart_keeps: "keeps e s (setCurrentWeekStart e d w s)"
proof -
  let ?s1 = "StorageService_set e CURRENT_WEEK_START_KEY
                 (\<lambda>s. s\<lparr>current_week_start := Some (setHours e d 0 0 0 0)\<rparr>) s"
  have k1: "keeps e s ?s1"
    by (rule keeps_set) simp_all
  have k2: "keeps e s (StorageService_set e CURRENT_WEEK_ID_KEY (\<lambda>s. s\<lparr>current_week_id := Some x\<rparr>) s2)"
    if "keeps e s s2" for x s2
    by (rule keeps_trans [OF that]) (rule keeps_set, simp_all)
  have k3: "keeps e s s2" if "getOrCreateWeekId e (setHours e d 0 0 0 0) ?s1 = (x, s2)" for x s2
    using k1 getOrCreateWeekId_keeps [OF that] by (rule keeps_trans)
  show ?thesis
    by (auto simp: setCurrentWeekStart_def Let_def split: option.splits prod.splits
        intro!: k2 k1 dest: k3)
qed

lemma createTransaction_keeps:
  assumes "createTransaction e description amount dateString s = (x, s')"
  shows "keeps e s s'"
proof -
  obtain cur s1 where c: "getCurrentWeekId e s = (cur, s1)"
    by (cases "getCurrentWeekId e s")
  note k1 = getCurrentWeekId_keeps [OF c]
  have k3: "keeps e s (StorageService_set e FINANCE_STORAGE_KEY
               (\<lambda>s. s\<lparr>transactions := txs\<rparr>) (s2\<lparr>rng := Suc (rng s2)\<rparr>))"
    if "getOrCreateWeekId e d s1 = (w, s2)" for d w s2 txs
  proof -
    have "keeps e s2 (s2\<lparr>rng := Suc (rng s2)\<rparr>)"
      by (rule keeps_same) simp_all
    moreover have "keeps e (s2\<lparr>rng := Suc (rng s2)\<rparr>) (StorageService_set e FINANCE_STORAGE_KEY
               (\<lambda>s. s\<lparr>transactions := txs\<rparr>) (s2\<lparr>rng := Suc (rng s2)\<rparr>))"
      by (rule keeps_set) simp_all
    ultimately show ?thesis
      using k1 getOrCreateWeekId_keeps [OF that] by (blast intro: keeps_trans)
  qed
  from assms c k1 show ?thesis
    by (auto simp: createTransaction_def Let_def split: if_splits option.splits prod.splits
        intro!: k3)
qed

lemma historyEntry_keeps:
  "historyEntry e w s = (x, s') \<Longrightarrow> keeps e s s'"
  by (auto simp: historyEntry_def Let_def split: prod.splits dest: getTransactionsByWeek_keeps)

lemma getWeeksHistory_keeps:
  assumes "getWeeksHistory e limit s = (x, s')"
  shows "keeps e s s'"
proof -
  let ?ids = "set_add_all (set_add_all [] (closed_weeks s)) (map tx_weekId (transactions s))"
  obtain ys s1 where m: "map_st (historyEntry e) ?ids s = (ys, s1)"
    by (cases "map_st (historyEntry e) ?ids s")
  from m have "keeps e s s1"
    by (rule map_st_keeps [rotated]) (rule historyEntry_keeps)
  moreover from assms m have "s' = s1"
    by (simp add: getWeeksHistory_def Let_def getClosedWeeks_def getAllTransactions_def)
  ultimately show ?thesis by simp
qed

lemma closeWeek_schedule_keeps:
  assumes "closeWeek_schedule e closeDate newNextDay newStart newId cn s = (x, s')"
  shows "keeps e s s'"
proof -
  have start: "keeps e s (setCurrentWeekStart e d w s3)" if "keeps e s s3" for d w s3
    using that setCurrentWeekStart_keeps by (rule keeps_trans)
  have nxt: "keeps e s (setCurrentWeekStart e d w s3)"
    if "setNextCloseDate e newNextDay s = (r, s3)" for d w r s3
    using setNextCloseDate_keeps [OF that] by (rule start)
  from assms show ?thesis
    by (auto simp: closeWeek_schedule_def Let_def
        split: option.splits if_splits prod.splits sum.splits
        intro!: start dest: setNextCloseDate_keeps)
qed

lemma closeWeek_final_check_keeps:
  assumes "closeWeek_final_check e newStart s = (x, s')"
  shows "keeps e s s'"
proof -
  obtain w s1 where c: "getCurrentWeekId e s = (w, s1)"
    by (cases "getCurrentWeekId e s")
  note k1 = getCurrentWeekId_keeps [OF c]
  have "keeps e s1 (s1\<lparr>rng := Suc (rng s1)\<rparr>)"
    by (rule keeps_same) simp_all
  then have "keeps e s1 (setCurrentWeekStart e d v (s1\<lparr>rng := Suc (rng s1)\<rparr>))" for d v
    using setCurrentWeekStart_keeps by (rule keeps_trans)
  then have k2: "keeps e s (setCurrentWeekStart e d v (s1\<lparr>rng := Suc (rng s1)\<rparr>))" for d v
    using k1 by (blast intro: keeps_trans)
  from assms c k1 k2 show ?thesis
    by (auto simp: closeWeek_final_check_def Let_def generateWeekId_def split: if_splits)
qed

lemma closeWeek_manual_keeps:
  assumes "closeWeek_manual e closeDate k s = (x, s')"
  shows "keeps e s s'"
proof -
  let ?newId = "genId e (rng s)"
  let ?newStart = "setHours e closeDate 0 0 0 0"
  let ?s2 = "setWeekIdMapping e (obj_set ?newId (isoDate ?newStart) (week_id_mapping s))
               (s\<lparr>rng := Suc (rng s)\<rparr>)"
  have k2: "keeps e s ?s2"
    by (rule keeps_new_entry)
  obtain r s3 where u: "closeWeek_schedule e closeDate (getNextDayOfWeekAfter e (now e) k)
      ?newStart ?newId (next_close_date s) ?s2 = (r, s3)"
    by (cases "closeWeek_schedule e closeDate (getNextDayOfWeekAfter e (now e) k)
      ?newStart ?newId (next_close_date s) ?s2")
  note k3 = keeps_trans [OF k2 closeWeek_schedule_keeps [OF u]]
  show ?thesis
  proof (cases r)
    case (Inl err)
    with assms u have "s' = s3"
      by (simp add: closeWeek_manual_def Let_def generateWeekId_def getWeekIdMapping_def
          getNextCloseDate_def)
    with k3 show ?thesis by simp
  next
    case (Inr v)
    with assms u have "closeWeek_final_check e ?newStart s3 = (x, s')"
      by (simp add: closeWeek_manual_def Let_def generateWeekId_def getWeekIdMapping_def
          getNextCloseDate_def)
    from k3 closeWeek_final_check_keeps [OF this] show ?thesis
      by (rule keeps_trans)
  qed
qed

lemma closeWeek_commit_keeps:
  assumes "closeWeek_commit e target ncd isManual s = (x, s')"
  shows "keeps e s s'"
proof (cases "target \<in> set (closed_weeks s)")
  case True
  with assms have "s' = s"
    by (auto simp: closeWeek_commit_def Let_def getClosedWeeks_def split: if_splits)
  then show ?thesis by simp
next
  case False
  let ?s1 = "StorageService_set e CLOSED_WEEKS_KEY
               (\<lambda>s. s\<lparr>closed_weeks := closed_weeks s @ [target]\<rparr>) s"
  have k1: "keeps e s ?s1"
    using False
    by (auto simp: StorageService_set_def keeps_def ledger_inv_def ledger_grows_def ids_new_def)
  have s1eq: "StorageService_set e CLOSED_WEEKS_KEY
               (\<lambda>s'. s'\<lparr>closed_weeks := closed_weeks s @ [target]\<rparr>) s = ?s1"
    by (simp add: StorageService_set_def)
  show ?thesis
  proof (cases "target \<in> set (closed_weeks ?s1)")
    case notsaved: False
    with assms False have "s' = ?s1"
      by (simp add: closeWeek_commit_def Let_def getClosedWeeks_def s1eq)
    with k1 show ?thesis by simp
  next
    case saved: True
    show ?thesis
    proof (cases isManual)
      case True
      with assms False saved have "closeWeek_manual e (setHours e (now e) 0 0 0 0)
          (cfg_dayOfWeek (getAutoCloseConfig ?s1)) ?s1 = (x, s')"
        by (simp add: closeWeek_commit_def Let_def getClosedWeeks_def s1eq)
      from k1 closeWeek_manual_keeps [OF this] show ?thesis
        by (rule keeps_trans)
    next
      case auto: False
      obtain r s2 where n: "setNextCloseDate e
          (case ncd of Some d \<Rightarrow> d
           | None \<Rightarrow> getNextDayOfWeekAfter e (now e) (cfg_dayOfWeek (getAutoCloseConfig ?s1)))
          ?s1 = (r, s2)"
        by (cases "setNextCloseDate e
          (case ncd of Some d \<Rightarrow> d
           | None \<Rightarrow> getNextDayOfWeekAfter e (now e) (cfg_dayOfWeek (getAutoCloseConfig ?s1)))
          ?s1")
      with assms False saved auto have "s' = s2"
        by (auto simp: closeWeek_commit_def Let_def getClosedWeeks_def s1eq split: sum.splits)
      with k1 setNextCloseDate_keeps [OF n] show ?thesis
        by (blast intro: keeps_trans)
    qed
  qed
qed

lemma closeWeek_keeps:
  assumes "closeWeek e weekId ncd isManual s = (x, s')"
  shows "keeps e s s'"
proof -
  have commit: "keeps e s s'" if "keeps e s s1" "closeWeek_commit e t ncd isManual s1 = (x, s')"
    for s1 t
    using that(1) closeWeek_commit_keeps [OF that(2)] by (rule keeps_trans)
  from assms show ?thesis
    by (auto simp: closeWeek_def split: if_splits prod.splits option.splits
        dest!: getCurrentWeekId_keeps closeWeek_commit_keeps intro: keeps_trans)
qed

lemma checkAndAutoCloseWeek_keeps:
  assumes "checkAndAutoCloseWeek e s = (x, s')"
  shows "keeps e s s'"
proof -
  obtain cur s1 where c: "getCurrentWeekId e s = (cur, s1)"
    by (cases "getCurrentWeekId e s")
  note k1 = getCurrentWeekId_keeps [OF c]
  have "keeps e s1 (s1\<lparr>rng := Suc (rng s1)\<rparr>)"
    by (rule keeps_same) simp_all
  with k1 have k2: "keeps e s (s1\<lparr>rng := Suc (rng s1)\<rparr>)"
    by (rule keeps_trans)
  obtain r s3 where cw: "closeWeek e (Some cur)
      (Some (getNextDayOfWeekAfter e (now e) (cfg_dayOfWeek (getAutoCloseConfig s)))) False
      (s1\<lparr>rng := Suc (rng s1)\<rparr>) = (r, s3)"
    by (cases "closeWeek e (Some cur)
      (Some (getNextDayOfWeekAfter e (now e) (cfg_dayOfWeek (getAutoCloseConfig s)))) False
      (s1\<lparr>rng := Suc (rng s1)\<rparr>)")
  note k3 = keeps_trans [OF k2 closeWeek_keeps [OF cw]]
  have k4: "keeps e s (setCurrentWeekStart e d w s3)" for d w
    using k3 setCurrentWeekStart_keeps by (rule keeps_trans)
  from assms c cw k1 k3 k4 show ?thesis
    by (auto simp: checkAndAutoCloseWeek_def Let_def generateWeekId_def
        split: if_splits sum.splits)
qed

lemma keeps_kept:
  assumes "keeps e s s'" "ledger_inv s" "ids_new e s"
  shows "ledger_kept s s'"
proof -
  from assms have inv: "ledger_inv s'" and grows: "ledger_grows s s'"
    by (simp_all add: keeps_def)
  have "map_of (week_id_mapping s') w = Some d" if "map_of (week_id_mapping s) w = Some d" for w d
  proof -
    from that have "(w, d) \<in> set (week_id_mapping s)" by (rule map_of_SomeD)
    with grows have "(w, d) \<in> set (week_id_mapping s')" by (auto simp: ledger_grows_def)
    with inv show ?thesis by (simp add: ledger_inv_def)
  qed
  with inv grows show ?thesis
    by (auto simp: ledger_kept_def ledger_inv_def ledger_grows_def)
qed


lemma keeps_step:
  assumes "ledger_inv s" "ids_new e s" "keeps e s s'"
  shows "ledger_step e s s'"
  using assms keeps_kept [of e s s'] by (simp add: ledger_step_def keeps_def)

text \<open>
  Claim C9. Every operation of the service, the queries included
  (\<open>getWeeksHistory\<close>, \<open>getCurrentWeekTransactions\<close>, \<open>isDateInClosedWeek\<close> and
  the others below, all of which may create mapping entries), takes a state in which
  each week is closed at most once and each \<open>weekId\<close> mapped at most once to a state
  of the same kind, in which every week that was closed is still closed and every
  \<open>weekId\<close> that was mapped still has the start date it had: entries and closed
  weeks are only added. The identifiers generated on the way are taken to be new, as in
  \<open>ids_new\<close>, and stay so after the operation. The raw setter \<open>setWeekIdMapping\<close>,
  which overwrites the table with its argument, is not among the operations.
\<close>

theorem ledger_append_only:
  assumes inv: "ledger_inv s" and new: "ids_new e s"
  shows "ledger_step e s (snd (createTransaction e description amount dateString s))
     \<and> ledger_step e s (snd (removeTransaction e transactionId s))
     \<and> ledger_step e s (snd (closeWeek e weekId nextCloseDate isManual s))
     \<and> ledger_step e s (snd (checkAndAutoCloseWeek e s))
     \<and> ledger_step e s (snd (getCurrentWeekTransactions e s))
     \<and> ledger_step e s (snd (getTransactionsByWeek e w s))
     \<and> ledger_step e s (snd (getWeeksHistory e limit s))
     \<and> ledger_step e s (snd (isDateInClosedWeek e date s))
     \<and> ledger_step e s (snd (isTransactionInClosedWeek e t s))
     \<and> ledger_step e s (snd (isCurrentWeekClosed e s))
     \<and> ledger_step e s (snd (getCurrentWeekId e s))
     \<and> ledger_step e s (snd (getOrCreateWeekId e date s))
     \<and> ledger_step e s (snd (getCurrentWeekTotal e s))
     \<and> ledger_step e s (snd (isWeeklyLimitExceeded e s))
     \<and> ledger_step e s (snd (getWeeklyLimitUsage e s))
     \<and> ledger_step e s (snd (setWeeklyLimit e newLimit s))
     \<and> ledger_step e s (snd (setNextCloseDate e date s))
     \<and> ledger_step e s (setCurrentWeekStart e date weekId s)
     \<and> ledger_step e s (setAutoCloseConfig e c s)"
proof -
  note step = keeps_step [OF inv new]
  have 1: "ledger_step e s (snd (createTransaction e description amount dateString s))"
    by (rule step, rule createTransaction_keeps) (rule prod.collapse [symmetric])
  have 2: "ledger_step e s (snd (removeTransaction e transactionId s))"
    by (rule step, rule removeTransaction_keeps) (rule prod.collapse [symmetric])
  have 3: "ledger_step e s (snd (closeWeek e weekId nextCloseDate isManual s))"
    by (rule step, rule closeWeek_keeps) (rule prod.collapse [symmetric])
  have 4: "ledger_step e s (snd (checkAndAutoCloseWeek e s))"
    by (rule step, rule checkAndAutoCloseWeek_keeps) (rule prod.collapse [symmetric])
  have 5: "ledger_step e s (snd (getCurrentWeekTransactions e s))"
    by (rule step, rule getCurrentWeekTransactions_keeps) (rule prod.collapse [symmetric])
  have 6: "ledger_step e s (snd (getTransactionsByWeek e w s))"
    by (rule step, rule getTransactionsByWeek_keeps) (rule prod.collapse [symmetric])
  have 7: "ledger_step e s (snd (getWeeksHistory e limit s))"
    by (rule step, rule getWeeksHistory_keeps) (rule prod.collapse [symmetric])
  have 8: "ledger_step e s (snd (isDateInClosedWeek e date s))"
    by (rule step, rule isDateInClosedWeek_keeps) (rule prod.collapse [symmetric])
  have 9: "ledger_step e s (snd (isTransactionInClosedWeek e t s))"
    by (rule step, rule isTransactionInClosedWeek_keeps) (rule prod.collapse [symmetric])
  have 10: "ledger_step e s (snd (isCurrentWeekClosed e s))"
    by (rule step, rule isCurrentWeekClosed_keeps) (rule prod.collapse [symmetric])
  have 11: "ledger_step e s (snd (getCurrentWeekId e s))"
    by (rule step, rule getCurrentWeekId_keeps) (rule prod.collapse [symmetric])
  have 12: "ledger_step e s (snd (getOrCreateWeekId e date s))"
    by (rule step, rule getOrCreateWeekId_keeps) (rule prod.collapse [symmetric])
  have 13: "ledger_step e s (snd (getCurrentWeekTotal e s))"
    by (rule step, rule getCurrentWeekTotal_keeps) (rule prod.collapse [symmetric])
  have 14: "ledger_step e s (snd (isWeeklyLimitExceeded e s))"
    by (rule step, rule isWeeklyLimitExceeded_keeps) (rule prod.collapse [symmetric])
  have 15: "ledger_step e s (snd (getWeeklyLimitUsage e s))"
    by (rule step, rule getWeeklyLimitUsage_keeps) (rule prod.collapse [symmetric])
  have 16: "ledger_step e s (snd (setWeeklyLimit e newLimit s))"
    by (rule step, rule setWeeklyLimit_keeps) (rule prod.collapse [symmetric])
  have 17: "ledger_step e s (snd (setNextCloseDate e date s))"
    by (rule step, rule setNextCloseDate_keeps) (rule prod.collapse [symmetric])
  have 18: "ledger_step e s (setCurrentWeekStart e date weekId s)"
    by (rule step, rule setCurrentWeekStart_keeps)
  have 19: "ledger_step e s (setAutoCloseConfig e c s)"
    by (rule step, rule setAutoCloseConfig_keeps)
  from 1 2 3 4 5 6 7 8 9 10 11 12 13 14 15 16 17 18 19 show ?thesis
    by (intro conjI)
qed

theorem ledger_append_only_witness:
  "ledger_inv week_of_27_may \<and> ids_new sunday_noon week_of_27_may
   \<and> closed_weeks (snd (closeWeek sunday_noon None None True week_of_27_may)) = [''w0'']
   \<and> map_of (week_id_mapping (snd (closeWeek sunday_noon None None True week_of_27_may))) ''w0''
       = Some 19870
   \<and> map_of (week_id_mapping (snd (getWeeksHistory sunday_noon 10 week_of_27_may))) ''w0''
       = Some 19870"
proof -
  have inv: "ledger_inv week_of_27_may"
    by (simp add: ledger_inv_def week_of_27_may_def)
  have new: "ids_new sunday_noon week_of_27_may"
    by (auto simp: ids_new_def sunday_noon_def week_of_27_may_def genId_def inj_on_def)
  have m: "map_of (week_id_mapping week_of_27_may) ''w0'' = Some 19870"
    by (simp add: week_of_27_may_def)
  note all = ledger_append_only [OF inv new, where weekId = None and nextCloseDate = None
      and isManual = True and limit = 10]
  from all have "ledger_kept week_of_27_may (snd (closeWeek sunday_noon None None True week_of_27_may))"
    by (simp add: ledger_step_def)
  with m have a: "map_of (week_id_mapping (snd (closeWeek sunday_noon None None True week_of_27_may)))
      ''w0'' = Some 19870"
    by (simp add: ledger_kept_def)
  from all have "ledger_kept week_of_27_may (snd (getWeeksHistory sunday_noon 10 week_of_27_may))"
    by (simp add: ledger_step_def)
  with m have b: "map_of (week_id_mapping (snd (getWeeksHistory sunday_noon 10 week_of_27_may)))
      ''w0'' = Some 19870"
    by (simp add: ledger_kept_def)
  have c: "closed_weeks (snd (closeWeek sunday_noon None None True week_of_27_may)) = [''w0'']"
    by (simp add: sunday_noon_def week_of_27_may_def ledger_defs date_defs Let_def)
  from inv new a b c show ?thesis by simp
qed

section \<open>The automatic close\<close>

text \<open>What holds of the guards: a disabled schedule, another weekday or an hour before the
  configured one leave the state as it was; with a closed current week the call returns
  false after at most the re-derivation of the current week by \<open>getCurrentWeekId\<close>.\<close>

lemma checkAndAutoCloseWeek_guards:
  "(\<not> cfg_enabled (getAutoCloseConfig s) \<longrightarrow> checkAndAutoCloseWeek e s = (Inr False, s))
   \<and> (getDay e (now e) \<noteq> cfg_dayOfWeek (getAutoCloseConfig s)
        \<longrightarrow> checkAndAutoCloseWeek e s = (Inr False, s))
   \<and> (getHours e (now e) < cfg_hour (getAutoCloseConfig s)
        \<longrightarrow> checkAndAutoCloseWeek e s = (Inr False, s))
   \<and> (isWeekClosed (snd (getCurrentWeekId e s)) (fst (getCurrentWeekId e s))
        \<longrightarrow> fst (checkAndAutoCloseWeek e s) = Inr False
            \<and> (checkAndAutoCloseWeek e s = (Inr False, s)
                 \<or> snd (checkAndAutoCloseWeek e s) = snd (getCurrentWeekId e s)))"
  by (auto simp: checkAndAutoCloseWeek_def Let_def split: prod.splits)

lemma checkAndAutoCloseWeek_first_call:
  "checkAndAutoCloseWeek sunday_noon week_of_27_may =
     (Inr True,
      \<lparr>transactions = [], closed_weeks = [''w0''], auto_close_config = None,
       weekly_limit = None, next_close_date = Some 1717945200000,
       current_week_start = Some 1717297200000,
       week_id_mapping = [(''w0'', 19870)], current_week_id = Some ''week_x'', rng = 1\<rparr>)"
  by (simp add: sunday_noon_def week_of_27_may_def ledger_defs date_defs Let_def)

text \<open>
  Claim C5, the second call. On Sunday 2 June 2024 at 12:05, under the default schedule
  (Sunday, 12 h), the first call of \<open>checkAndAutoCloseWeek\<close> closes the open week
  \<open>w0\<close> and returns true. It stores the new identifier \<open>week_x\<close> as current week
  without an entry in the mapping, so the second call at the same instant derives yet
  another week \<open>week_xx\<close> for today, finds it open, closes it as well and returns true
  again: two weeks are closed within the same matching hour.
\<close>

theorem checkAndAutoCloseWeek_closes_twice:
  "fst (checkAndAutoCloseWeek sunday_noon week_of_27_may) = Inr True
   \<and> checkAndAutoCloseWeek sunday_noon (snd (checkAndAutoCloseWeek sunday_noon week_of_27_may)) =
     (Inr True,
      \<lparr>transactions = [], closed_weeks = [''w0'', ''week_xx''], auto_close_config = None,
       weekly_limit = None, next_close_date = Some 1717945200000,
       current_week_start = Some 1717297200000,
       week_id_mapping = [(''w0'', 19870), (''week_xx'', 19876)],
       current_week_id = Some ''week_xxx'', rng = 3\<rparr>)"
  unfolding checkAndAutoCloseWeek_first_call fst_conv snd_conv
  by (simp add: sunday_noon_def ledger_defs date_defs Let_def)

section \<open>The history of weeks\<close>

text \<open>The history has at most \<open>limit\<close> entries, in descending order of their start.\<close>

lemma sorted_uminus_descending:
  "sorted (map uminus xs) \<longleftrightarrow> sorted_wrt (\<lambda>a b. b \<le> a) (xs :: int list)"
  by (induction xs) auto

lemma getWeeksHistory_bounded_sorted:
  "length (fst (getWeeksHistory e limit s)) \<le> limit
   \<and> sorted_wrt (\<lambda>a b. b \<le> a) (map h_weekStart (fst (getWeeksHistory e limit s)))"
proof -
  obtain weeks s1 where m: "map_st (historyEntry e)
      (set_add_all (set_add_all [] (closed_weeks s)) (map tx_weekId (transactions s))) s = (weeks, s1)"
    by (cases "map_st (historyEntry e)
      (set_add_all (set_add_all [] (closed_weeks s)) (map tx_weekId (transactions s))) s")
  let ?xs = "sort_key (\<lambda>w. - h_weekStart w) (filter (\<lambda>w. 0 < h_weekStart w) weeks)"
  have r: "fst (getWeeksHistory e limit s) = take limit ?xs"
    using m by (simp add: getWeeksHistory_def Let_def getClosedWeeks_def getAllTransactions_def)
  have "sorted (map (\<lambda>w. - h_weekStart w) ?xs)"
    by (rule sorted_sort_key)
  then have "sorted (take limit (map (\<lambda>w. - h_weekStart w) ?xs))"
    by (rule sorted_wrt_take)
  then have "sorted (map uminus (map h_weekStart (take limit ?xs)))"
    by (simp add: take_map comp_def)
  then have "sorted_wrt (\<lambda>a b. b \<le> a) (map h_weekStart (take limit ?xs))"
    by (simp only: sorted_uminus_descending)
  with r show ?thesis by simp
qed

text \<open>
  Claim C7, the fallback. In \<open>legacy_ledger\<close> the week \<open>1716692400000\<close> has one
  transaction, dated Tuesday 28 May 2024, and no entry in the mapping. The entry that
  \<open>getWeeksHistory\<close> builds for it carries the period of the transaction's calendar
  week, 26 May to 1 June, but its \<open>weekStart\<close> stays \<open>new Date(0)\<close>, and the filter
  \<open>weekStart.getTime() > 0\<close> then drops the entry: the history is empty although the
  date of the week is resolvable from its transaction.
\<close>

theorem getWeeksHistory_drops_unmapped_week:
  "fst (historyEntry sunday_noon ''1716692400000'' legacy_ledger) =
     \<lparr>h_weekId = ''1716692400000'', h_period = Period 1716692400000 1717297199999,
      h_total = 5, h_transactionCount = 1, h_isClosed = False, h_weekStart = 0\<rparr>
   \<and> fst (getWeeksHistory sunday_noon 10 legacy_ledger) = []"
  by (simp add: sunday_noon_def legacy_ledger_def ledger_defs date_defs Let_def)

end
